theory Spec2Isabelle
  imports Complex_Main "HOL-Library.Word" "HOL-Library.Multiset"
begin

section \<open>The claude-monitor sampling engine\<close>

text \<open>
  A shallow embedding of the process monitor (\<^verbatim>\<open>internal/monitor/process.go\<close>), of the
  history ring buffer (\<^verbatim>\<open>HistoryBuffer\<close>) and of \<^verbatim>\<open>RecordHistory\<close>
  (\<^verbatim>\<open>internal/api/handlers.go\<close>).

  Conventions of the embedding:
  \<^item> Go's \<^verbatim>\<open>int\<close> and \<^verbatim>\<open>int64\<close> are \<open>int\<close> where the values stay far from the
    64-bit bounds (process ids, epoch seconds, occurrence counters), and \<open>nat\<close> for the ring
    buffer's \<^verbatim>\<open>head\<close> and \<^verbatim>\<open>count\<close>, which only ever hold values between 0 and the
    capacity. The \<^verbatim>\<open>uint64\<close> CPU counters are \<open>64 word\<close>, because their subtraction wraps.
  \<^item> \<^verbatim>\<open>float64\<close> is \<open>real\<close>: rounding, infinities and NaN are not modelled. The only
    division whose divisor can vanish is the one by \<^verbatim>\<open>clkTck\<close>, and the statements that
    depend on it assume a positive rate.
  \<^item> A runtime panic and the error value of \<^verbatim>\<open>GetProcesses\<close> are values of the type
    \<open>failure\<close>; a function that can fail returns \<open>failure + 'a\<close>.
  \<^item> The locks are left out: every operation is modelled as running alone.
\<close>

datatype failure =
    ReadProcError             \<comment> \<open>the error \<^verbatim>\<open>failed to read /proc\<close> returned by \<^verbatim>\<open>GetProcesses\<close>\<close>
  | IndexOutOfRange           \<comment> \<open>panic: index out of range\<close>
  | SliceBoundsOutOfRange     \<comment> \<open>panic: slice bounds out of range\<close>

text \<open>Indexing a slice, with Go's bounds check.\<close>

definition index :: "'a list \<Rightarrow> nat \<Rightarrow> failure + 'a" where
  "index xs i = (if i < length xs then Inr (xs ! i) else Inl IndexOutOfRange)"

subsection \<open>The history ring buffer\<close>

text \<open>Durations are counted in nanoseconds, as \<^verbatim>\<open>time.Duration\<close> does.\<close>

definition HistoryDuration :: int where
  "HistoryDuration = 30 * (60 * 1000000000)"

definition SampleInterval :: int where
  "SampleInterval = 5 * 1000000000"

definition MaxSamples :: nat where
  "MaxSamples = nat (HistoryDuration div SampleInterval)"

record ProcessSnapshot =
  PID :: int
  Name :: string
  CPUPercent :: real
  MemoryMB :: real

record HistoryPoint =
  Timestamp :: int
  Temperature :: real
  Processes :: "ProcessSnapshot list"

record HistoryBuffer =
  data :: "HistoryPoint list"
  head :: nat
  count :: nat

text \<open>The zero value that \<^verbatim>\<open>make\<close> fills a fresh slice with.\<close>

definition zeroHistoryPoint :: HistoryPoint where
  "zeroHistoryPoint = \<lparr>Timestamp = 0, Temperature = 0, Processes = []\<rparr>"

definition NewHistoryBuffer :: HistoryBuffer where
  "NewHistoryBuffer = \<lparr>data = replicate MaxSamples zeroHistoryPoint, head = 0, count = 0\<rparr>"

text \<open>
  \<^verbatim>\<open>Add\<close> writes at the cursor, moves the cursor on circularly and counts up to the
  capacity. The write \<^verbatim>\<open>hb.data[hb.head] = point\<close> panics when the cursor is outside the
  storage.
\<close>

definition Add :: "HistoryBuffer \<Rightarrow> HistoryPoint \<Rightarrow> failure + HistoryBuffer" where
  "Add hb point =
     (if head hb < length (data hb) then
        (let hb1 = hb\<lparr>data := (data hb)[head hb := point]\<rparr>;
             hb2 = hb1\<lparr>head := (head hb1 + 1) mod MaxSamples\<rparr>
         in Inr (if count hb2 < MaxSamples then hb2\<lparr>count := count hb2 + 1\<rparr> else hb2))
      else Inl IndexOutOfRange)"

text \<open>
  The builtin \<^verbatim>\<open>copy(dst, src)\<close> overwrites the first \<open>min (length dst) (length src)\<close>
  elements of \<open>dst\<close>; the result is the new content of \<open>dst\<close>.
\<close>

definition copy :: "'a list \<Rightarrow> 'a list \<Rightarrow> 'a list" where
  "copy dst src = take (length dst) src @ drop (length src) dst"

text \<open>
  \<^verbatim>\<open>GetAll\<close>: \<^verbatim>\<open>nil\<close> for an empty buffer, the stored prefix while the buffer has not
  filled, and otherwise the segment from the cursor to the end of the storage followed by the
  segment before the cursor. The slice expressions carry their bounds checks.
\<close>

definition GetAll :: "HistoryBuffer \<Rightarrow> failure + HistoryPoint list" where
  "GetAll hb =
     (if count hb = 0 then Inr []
      else
        (let result = replicate (count hb) zeroHistoryPoint in
         if count hb < MaxSamples then
           (if count hb \<le> length (data hb)
            then Inr (copy result (take (count hb) (data hb)))
            else Inl SliceBoundsOutOfRange)
         else
           (if head hb \<le> length (data hb) then
              (let firstPart = drop (head hb) (data hb);
                   secondPart = take (head hb) (data hb);
                   result1 = copy result firstPart
               in if length firstPart \<le> length result1
                  then Inr (take (length firstPart) result1
                            @ copy (drop (length firstPart) result1) secondPart)
                  else Inl SliceBoundsOutOfRange)
            else Inl SliceBoundsOutOfRange)))"

text \<open>
  \<^verbatim>\<open>GetLast(n)\<close> takes an \<^verbatim>\<open>int\<close>. The slice \<^verbatim>\<open>all[len(all)-n:]\<close> panics when its
  lower bound is not between 0 and \<^verbatim>\<open>len(all)\<close>.
\<close>

definition GetLast :: "HistoryBuffer \<Rightarrow> int \<Rightarrow> failure + HistoryPoint list" where
  "GetLast hb n =
     (case GetAll hb of
        Inl e \<Rightarrow> Inl e
      | Inr all \<Rightarrow>
          if int (length all) \<le> n then Inr all
          else (let low = int (length all) - n
                in if 0 \<le> low \<and> low \<le> int (length all)
                   then Inr (drop (nat low) all)
                   else Inl SliceBoundsOutOfRange))"

definition Clear :: "HistoryBuffer \<Rightarrow> HistoryBuffer" where
  "Clear hb = hb\<lparr>count := 0, head := 0\<rparr>"

definition Count :: "HistoryBuffer \<Rightarrow> nat" where
  "Count hb = count hb"

text \<open>Inserting a sequence of samples, one \<^verbatim>\<open>Add\<close> after the other.\<close>

fun add_all :: "HistoryBuffer \<Rightarrow> HistoryPoint list \<Rightarrow> failure + HistoryBuffer" where
  "add_all hb [] = Inr hb"
| "add_all hb (p # ps) = (case Add hb p of Inl e \<Rightarrow> Inl e | Inr hb' \<Rightarrow> add_all hb' ps)"

text \<open>
  The states that \<^verbatim>\<open>NewHistoryBuffer\<close>, \<^verbatim>\<open>Add\<close> and \<^verbatim>\<open>Clear\<close> can produce (the fields
  are unexported): the storage has the capacity's length; while the buffer has not filled the
  cursor equals the occupancy; once it has, the cursor is anywhere inside the storage.
\<close>

definition hb_inv :: "HistoryBuffer \<Rightarrow> bool" where
  "hb_inv hb \<longleftrightarrow>
     length (data hb) = MaxSamples \<and>
     (count hb < MaxSamples \<and> head hb = count hb \<or>
      count hb = MaxSamples \<and> head hb < MaxSamples)"

text \<open>The samples a buffer holds, oldest first.\<close>

definition chronological :: "HistoryBuffer \<Rightarrow> HistoryPoint list" where
  "chronological hb =
     (if count hb < MaxSamples then take (count hb) (data hb)
      else drop (head hb) (data hb) @ take (head hb) (data hb))"

definition keep_last :: "nat \<Rightarrow> 'a list \<Rightarrow> 'a list" where
  "keep_last n xs = drop (length xs - n) xs"

text \<open>A sample per polling tick, five seconds apart, for the examples.\<close>

definition samplePoint :: "nat \<Rightarrow> HistoryPoint" where
  "samplePoint i = \<lparr>Timestamp = 1700000000 + 5 * int i, Temperature = 40, Processes = []\<rparr>"


subsection \<open>Standard-library functions used by the monitor\<close>

text \<open>
  These functions belong to Go's standard library, not to the repository; each is modelled
  from its documented behaviour. Strings are byte sequences. White space is the ASCII white
  space (tab, line feed, vertical tab, form feed, carriage return, space); the multi-byte
  Unicode spaces that \<^verbatim>\<open>strings.Fields\<close> and \<^verbatim>\<open>strings.TrimSpace\<close> also recognise are
  left out.
\<close>

datatype NumError = ErrSyntax | ErrRange

definition isDigit :: "char \<Rightarrow> bool" where
  "isDigit c \<longleftrightarrow> c \<in> set ''0123456789''"

definition digitVal :: "char \<Rightarrow> nat" where
  "digitVal c = of_char c - 48"

text \<open>
  \<^verbatim>\<open>strconv.ParseUint(s, 10, 64)\<close>: the value and the error. The loop runs over the bytes
  from the left; a byte that is no digit ends it with 0 and a syntax error, an overflow ends it
  with the largest \<^verbatim>\<open>uint64\<close> and a range error. The accumulator is written on \<open>nat\<close>:
  below the cutoff the product by ten fits in 64 bits, and the wrap-around of the addition,
  which the library detects by \<^verbatim>\<open>n1 < n\<close>, is the sum exceeding the largest value.
\<close>

fun ParseUint_loop :: "nat \<Rightarrow> string \<Rightarrow> nat \<times> NumError option" where
  "ParseUint_loop n [] = (n, None)"
| "ParseUint_loop n (c # cs) =
     (if \<not> isDigit c then (0, Some ErrSyntax)
      else if n \<ge> 18446744073709551615 div 10 + 1 then (18446744073709551615, Some ErrRange)
      else (let n10 = n * 10; n1 = n10 + digitVal c
            in if n1 > 18446744073709551615 then (18446744073709551615, Some ErrRange)
               else ParseUint_loop n1 cs))"

definition ParseUint :: "string \<Rightarrow> 64 word \<times> NumError option" where
  "ParseUint s =
     (if s = [] then (0, Some ErrSyntax)
      else (case ParseUint_loop 0 s of (n, err) \<Rightarrow> (of_nat n, err)))"

definition decimal :: "string \<Rightarrow> nat" where
  "decimal ds = foldl (\<lambda>n c. 10 * n + digitVal c) 0 ds"

text \<open>
  \<^verbatim>\<open>strconv.Atoi\<close>: an optional sign and at least one decimal digit, with a value in the
  range of a 64-bit \<^verbatim>\<open>int\<close>; \<open>None\<close> stands for any error.
\<close>

definition Atoi :: "string \<Rightarrow> int option" where
  "Atoi s =
     (let (neg, ds) =
            (case s of
               [] \<Rightarrow> (False, s)
             | c # cs \<Rightarrow> if c = CHR ''-'' then (True, cs)
                         else if c = CHR ''+'' then (False, cs) else (False, s))
      in if ds = [] \<or> \<not> list_all isDigit ds then None
         else (let v = int (decimal ds); n = (if neg then - v else v)
               in if - (2 ^ 63) \<le> n \<and> n < 2 ^ 63 then Some n else None))"

fun digits :: "nat \<Rightarrow> string" where
  "digits n = (if n < 10 then [''0123456789'' ! n]
               else digits (n div 10) @ [''0123456789'' ! (n mod 10)])"

declare digits.simps [simp del]

text \<open>\<^verbatim>\<open>strconv.Itoa\<close>, also the \<^verbatim>\<open>%d\<close> verb of \<^verbatim>\<open>fmt.Sprintf\<close>.\<close>

definition Itoa :: "int \<Rightarrow> string" where
  "Itoa i = (if i < 0 then CHR ''-'' # digits (nat (- i)) else digits (nat i))"

definition isSpace :: "char \<Rightarrow> bool" where
  "isSpace c \<longleftrightarrow> c \<in> {CHR 0x09, CHR 0x0A, CHR 0x0B, CHR 0x0C, CHR 0x0D, CHR '' ''}"

definition TrimSpace :: "string \<Rightarrow> string" where
  "TrimSpace s = rev (dropWhile isSpace (rev (dropWhile isSpace s)))"

text \<open>\<^verbatim>\<open>strings.Fields\<close>; the first argument is the field being read, reversed.\<close>

fun Fields_from :: "string \<Rightarrow> string \<Rightarrow> string list" where
  "Fields_from cur [] = (if cur = [] then [] else [rev cur])"
| "Fields_from cur (c # cs) =
     (if isSpace c then (if cur = [] then Fields_from [] cs else rev cur # Fields_from [] cs)
      else Fields_from (c # cur) cs)"

definition Fields :: "string \<Rightarrow> string list" where
  "Fields s = Fields_from [] s"

text \<open>\<^verbatim>\<open>strings.LastIndex\<close> for a one-byte substring: the last position, or \<open>-1\<close>.\<close>

fun LastIndex_from :: "char \<Rightarrow> string \<Rightarrow> int \<Rightarrow> int \<Rightarrow> int" where
  "LastIndex_from c [] i found = found"
| "LastIndex_from c (x # xs) i found = LastIndex_from c xs (i + 1) (if x = c then i else found)"

definition LastIndex :: "string \<Rightarrow> char \<Rightarrow> int" where
  "LastIndex s c = LastIndex_from c s 0 (- 1)"

text \<open>
  \<^verbatim>\<open>filepath.Base\<close>: the last element of the path, trailing slashes dropped; a dot for the
  empty path and a slash for a path of slashes only.
\<close>

definition Base :: "string \<Rightarrow> string" where
  "Base path =
     (if path = [] then ''.''
      else (let stripped = rev (dropWhile (\<lambda>c. c = CHR ''/'') (rev path));
                elem = rev (takeWhile (\<lambda>c. c \<noteq> CHR ''/'') (rev stripped))
            in if elem = [] then ''/'' else elem))"

text \<open>
  \<^verbatim>\<open>filepath.Join\<close> of three elements. The monitor joins \<^verbatim>\<open>/proc\<close>, a decimal number
  and a file name, for which the cleaning that \<^verbatim>\<open>Join\<close> performs changes nothing.
\<close>

definition Join3 :: "string \<Rightarrow> string \<Rightarrow> string \<Rightarrow> string" where
  "Join3 a b c = a @ ''/'' @ b @ ''/'' @ c"

text \<open>The conversion of a float to an integer truncates towards zero.\<close>

definition trunc :: "real \<Rightarrow> int" where
  "trunc x = (if 0 \<le> x then \<lfloor>x\<rfloor> else \<lceil>x\<rceil>)"

text \<open>\<^verbatim>\<open>Duration.Seconds\<close>.\<close>

definition Seconds :: "int \<Rightarrow> real" where
  "Seconds d = real_of_int d / 1000000000"

text \<open>
  \<^verbatim>\<open>sort.Slice\<close> is not stable by contract. In Go 1.21, which the repository requires,
  it runs the insertion sort below on slices of up to twelve elements: each element moves
  towards the front while it is less than its predecessor. Longer slices are sorted by
  pattern-defeating quicksort, whose result is ordered in the same way but may arrange equal
  elements differently: beyond twelve elements the model gives one ordered arrangement, not
  necessarily the one the library produces, and a statement about the order of equal
  elements is made for at most twelve. \<open>insertionStep\<close>
  inserts into the part already sorted, held in reverse.
\<close>

fun insertionStep :: "('a \<Rightarrow> 'a \<Rightarrow> bool) \<Rightarrow> 'a \<Rightarrow> 'a list \<Rightarrow> 'a list" where
  "insertionStep lt x [] = [x]"
| "insertionStep lt x (y # ys) =
     (if lt x y then y # insertionStep lt x ys else x # y # ys)"

definition sort_Slice :: "('a \<Rightarrow> 'a \<Rightarrow> bool) \<Rightarrow> 'a list \<Rightarrow> 'a list" where
  "sort_Slice lt xs = rev (foldl (\<lambda>acc x. insertionStep lt x acc) [] xs)"

subsection \<open>The process table as one poll sees it\<close>

text \<open>
  Everything a poll reads from its surroundings: the listing of \<^verbatim>\<open>/proc\<close> (\<open>None\<close> when
  \<^verbatim>\<open>os.ReadDir\<close> fails), the files and symbolic links by path (\<open>None\<close> when the read
  fails), the page size, the clocks, and the reading of the temperature monitor. A poll sees one
  snapshot: a path read twice gives the same content, and a process that vanishes is a process
  whose files cannot be read. \<^verbatim>\<open>strconv.ParseFloat\<close> is taken from the surroundings as
  well; its error is ignored by the monitor.
\<close>

record DirEntry =
  entry_Name :: string
  entry_IsDir :: bool

record procfs =
  ReadDir_proc :: "DirEntry list option"
  ReadFile :: "string \<Rightarrow> string option"
  Readlink :: "string \<Rightarrow> string option"
  Getpagesize :: int
  ParseFloat :: "string \<Rightarrow> real"
  Now :: int
  Now_Unix :: int
  GetMainTemperature :: real

subsection \<open>The process monitor\<close>

record ClaudeProcess =
  PID :: int
  Name :: string
  WorkingDir :: string
  CPUPercent :: real
  MemoryMB :: real
  StartTime :: int

record cpuTime =
  utime :: "64 word"
  stime :: "64 word"

record ProcessMonitor =
  prevCPUTimes :: "int \<rightharpoonup> cpuTime"
  prevSample :: int
  clkTck :: real

text \<open>An element of \<^verbatim>\<open>rawProcesses\<close>.\<close>

record rawProcess =
  proc :: ClaudeProcess
  cpuTime :: cpuTime

definition NewProcessMonitor :: "procfs \<Rightarrow> ProcessMonitor" where
  "NewProcessMonitor env = \<lparr>prevCPUTimes = Map.empty, prevSample = Now env, clkTck = 100\<rparr>"

definition isClaude :: "procfs \<Rightarrow> int \<Rightarrow> bool" where
  "isClaude env pid =
     (case ReadFile env (Join3 ''/proc'' (Itoa pid) ''comm'') of
        None \<Rightarrow> False
      | Some bytes \<Rightarrow> TrimSpace bytes = ''claude'')"

definition getMemoryMB :: "procfs \<Rightarrow> int \<Rightarrow> failure + real" where
  "getMemoryMB env pid =
     (case ReadFile env (Join3 ''/proc'' (Itoa pid) ''statm'') of
        None \<Rightarrow> Inr 0
      | Some bytes \<Rightarrow>
          (let fields = Fields bytes in
           if length fields < 2 then Inr 0
           else (case index fields 1 of
                   Inl e \<Rightarrow> Inl e
                 | Inr f1 \<Rightarrow>
                     (case ParseUint f1 of
                        (rss, Some err) \<Rightarrow> Inr 0
                      | (rss, None) \<Rightarrow>
                          (let pageSize = (word_of_int (Getpagesize env) :: 64 word)
                           in Inr (real (unat (rss * pageSize)) / (1024 * 1024)))))))"

definition zeroCpuTime :: cpuTime where
  "zeroCpuTime = \<lparr>utime = 0, stime = 0\<rparr>"

text \<open>
  \<^verbatim>\<open>getCPUTime\<close> guards the field list with \<^verbatim>\<open>len(fields) < 12\<close> and then reads
  \<^verbatim>\<open>fields[11]\<close> and \<^verbatim>\<open>fields[12]\<close>.
\<close>

definition getCPUTime :: "procfs \<Rightarrow> int \<Rightarrow> failure + cpuTime" where
  "getCPUTime env pid =
     (case ReadFile env (Join3 ''/proc'' (Itoa pid) ''stat'') of
        None \<Rightarrow> Inr zeroCpuTime
      | Some content \<Rightarrow>
          (let idx = LastIndex content CHR '')'' in
           if idx = - 1 \<or> idx + 2 \<ge> int (length content) then Inr zeroCpuTime
           else (let fields = Fields (drop (nat (idx + 2)) content) in
                 if length fields < 12 then Inr zeroCpuTime
                 else (case index fields 11 of
                         Inl e \<Rightarrow> Inl e
                       | Inr f11 \<Rightarrow>
                           (case index fields 12 of
                              Inl e \<Rightarrow> Inl e
                            | Inr f12 \<Rightarrow>
                                Inr \<lparr>utime = fst (ParseUint f11),
                                     stime = fst (ParseUint f12)\<rparr>)))))"

definition getStartTime :: "procfs \<Rightarrow> int \<Rightarrow> failure + int" where
  "getStartTime env pid =
     (case ReadFile env (Join3 ''/proc'' (Itoa pid) ''stat'') of
        None \<Rightarrow> Inr 0
      | Some content \<Rightarrow>
          (let idx = LastIndex content CHR '')'' in
           if idx = - 1 \<or> idx + 2 \<ge> int (length content) then Inr 0
           else (let fields = Fields (drop (nat (idx + 2)) content) in
                 if length fields < 20 then Inr 0
                 else (case index fields 19 of
                         Inl e \<Rightarrow> Inl e
                       | Inr f19 \<Rightarrow>
                           (let starttime = fst (ParseUint f19) in
                            case ReadFile env ''/proc/uptime'' of
                              None \<Rightarrow> Inr 0
                            | Some uptimeData \<Rightarrow>
                                (let uptimeFields = Fields uptimeData in
                                 if length uptimeFields < 1 then Inr 0
                                 else (case index uptimeFields 0 of
                                         Inl e \<Rightarrow> Inl e
                                       | Inr u0 \<Rightarrow>
                                           (let uptime = ParseFloat env u0;
                                                now = Now_Unix env;
                                                bootTime = now - trunc uptime;
                                                clkTck = 100;
                                                startSeconds = real (unat starttime) / clkTck
                                            in Inr (bootTime + trunc startSeconds)))))))))"

definition getOrdinalSuffix :: "int \<Rightarrow> string" where
  "getOrdinalSuffix n =
     (if n = 2 then ''2nd'' else if n = 3 then ''3rd'' else Itoa n @ ''th'')"

text \<open>
  The first pass of \<^verbatim>\<open>GetProcesses\<close>: the loop over the directory entries, which fills
  \<^verbatim>\<open>currentCPUTimes\<close> and \<^verbatim>\<open>rawProcesses\<close>.
\<close>

fun collect ::
  "procfs \<Rightarrow> DirEntry list \<Rightarrow> (int \<rightharpoonup> cpuTime) \<Rightarrow> rawProcess list
     \<Rightarrow> failure + ((int \<rightharpoonup> cpuTime) \<times> rawProcess list)" where
  "collect env [] currentCPUTimes rawProcesses = Inr (currentCPUTimes, rawProcesses)"
| "collect env (entry # entries) currentCPUTimes rawProcesses =
     (if \<not> entry_IsDir entry then collect env entries currentCPUTimes rawProcesses
      else (case Atoi (entry_Name entry) of
              None \<Rightarrow> collect env entries currentCPUTimes rawProcesses
            | Some pid \<Rightarrow>
                if \<not> isClaude env pid then collect env entries currentCPUTimes rawProcesses
                else (let p0 = \<lparr>PID = pid, Name = [], WorkingDir = [], CPUPercent = 0,
                                 MemoryMB = 0, StartTime = 0\<rparr>;
                          cwdPath = Join3 ''/proc'' (entry_Name entry) ''cwd'';
                          p1 = (case Readlink env cwdPath of
                                  Some cwd \<Rightarrow> p0\<lparr>WorkingDir := cwd, Name := Base cwd\<rparr>
                                | None \<Rightarrow> p0\<lparr>Name := ''claude''\<rparr>)
                      in case getMemoryMB env pid of
                           Inl e \<Rightarrow> Inl e
                         | Inr mem \<Rightarrow>
                             (let p2 = p1\<lparr>MemoryMB := mem\<rparr> in
                              case getCPUTime env pid of
                                Inl e \<Rightarrow> Inl e
                              | Inr ct \<Rightarrow>
                                  (case getStartTime env pid of
                                     Inl e \<Rightarrow> Inl e
                                   | Inr st \<Rightarrow>
                                       (let p3 = p2\<lparr>StartTime := st\<rparr> in
                                        collect env entries (currentCPUTimes(pid \<mapsto> ct))
                                          (rawProcesses @ [\<lparr>proc = p3, cpuTime = ct\<rparr>])))))))"

text \<open>Reading \<^verbatim>\<open>nameCount[k]\<close>: a missing key reads as 0.\<close>

definition nameCount_get :: "(string \<rightharpoonup> int) \<Rightarrow> string \<Rightarrow> int" where
  "nameCount_get nameCount k = (case nameCount k of None \<Rightarrow> 0 | Some n \<Rightarrow> n)"

text \<open>
  The second pass: the loop over the sorted list, which computes the percentage, counts the
  names and appends to \<^verbatim>\<open>processes\<close>.
\<close>

fun assign ::
  "(int \<rightharpoonup> cpuTime) \<Rightarrow> real \<Rightarrow> real \<Rightarrow> rawProcess list \<Rightarrow> (string \<rightharpoonup> int)
     \<Rightarrow> ClaudeProcess list \<Rightarrow> ClaudeProcess list" where
  "assign prevTimes clk elapsed [] nameCount processes = processes"
| "assign prevTimes clk elapsed (rp # rps) nameCount processes =
     (let p = proc rp;
          ct = cpuTime rp;
          p1 = (case prevTimes (PID p) of
                  Some prev \<Rightarrow>
                    (let totalDelta = real (unat ((utime ct - utime prev) + (stime ct - stime prev)));
                         c0 = (totalDelta / clk / elapsed) * 100;
                         c1 = (if c0 < 0 then 0 else c0);
                         c2 = (if c1 > 100 then 100 else c1)
                     in p\<lparr>CPUPercent := c2\<rparr>)
                | None \<Rightarrow> p);
          baseName = Name p1;
          nameCount1 = nameCount(baseName \<mapsto> nameCount_get nameCount baseName + 1);
          p2 = (if nameCount_get nameCount1 baseName > 1
                then (let ordinal = nameCount_get nameCount1 baseName;
                          suffix = getOrdinalSuffix ordinal
                      in p1\<lparr>Name := baseName @ '' ('' @ suffix @ '')''\<rparr>)
                else p1)
      in assign prevTimes clk elapsed rps nameCount1 (processes @ [p2]))"

declare assign.simps [simp del]

text \<open>
  \<^verbatim>\<open>GetProcesses\<close> returns the list and the monitor's new state. The closing loop deletes
  from the new \<^verbatim>\<open>prevCPUTimes\<close> the keys that \<^verbatim>\<open>currentCPUTimes\<close> lacks.
\<close>

definition GetProcesses ::
  "procfs \<Rightarrow> ProcessMonitor \<Rightarrow> failure + (ClaudeProcess list \<times> ProcessMonitor)" where
  "GetProcesses env pm =
     (case ReadDir_proc env of
        None \<Rightarrow> Inl ReadProcError
      | Some entries \<Rightarrow>
          (let now = Now env;
               elapsed0 = Seconds (now - prevSample pm);
               elapsed = (if elapsed0 < 0.1 then 0.1 else elapsed0)
           in case collect env entries Map.empty [] of
                Inl e \<Rightarrow> Inl e
              | Inr (currentCPUTimes, rawProcesses) \<Rightarrow>
                  (let sortedRaw = sort_Slice (\<lambda>a b. StartTime (proc a) < StartTime (proc b))
                                     rawProcesses;
                       processes = assign (prevCPUTimes pm) (clkTck pm) elapsed sortedRaw
                                     Map.empty [];
                       pm1 = pm\<lparr>prevCPUTimes := currentCPUTimes, prevSample := now\<rparr>;
                       pm2 = pm1\<lparr>prevCPUTimes :=
                                (\<lambda>pid. if currentCPUTimes pid = None then None
                                       else prevCPUTimes pm1 pid)\<rparr>
                   in Inr (processes, pm2))))"

subsection \<open>Recording a history sample\<close>

text \<open>
  Of the handler only the monitor and the history buffer are kept; the settings and the
  temperature monitor play no part in \<^verbatim>\<open>RecordHistory\<close> beyond the temperature reading.
  A failed enumeration makes \<^verbatim>\<open>RecordHistory\<close> return at once; a panic goes through it.
\<close>

record Handler =
  processMonitor :: ProcessMonitor
  history :: HistoryBuffer

definition RecordHistory :: "procfs \<Rightarrow> Handler \<Rightarrow> failure + Handler" where
  "RecordHistory env h =
     (case GetProcesses env (processMonitor h) of
        Inl ReadProcError \<Rightarrow> Inr h
      | Inl e \<Rightarrow> Inl e
      | Inr (processes, pm') \<Rightarrow>
          (let snapshots = map (\<lambda>p. \<lparr>ProcessSnapshot.PID = PID p, ProcessSnapshot.Name = Name p,
                                     ProcessSnapshot.CPUPercent = CPUPercent p,
                                     ProcessSnapshot.MemoryMB = MemoryMB p\<rparr>) processes;
               point = \<lparr>Timestamp = Now_Unix env, Temperature = GetMainTemperature env,
                        Processes = snapshots\<rparr>
           in case Add (history h) point of
                Inl e \<Rightarrow> Inl e
              | Inr hb \<Rightarrow> Inr (h\<lparr>processMonitor := pm', history := hb\<rparr>)))"

subsection \<open>Notions used in the statements\<close>

text \<open>
  The candidate list of a poll after the sort, that is the list the second pass walks; empty
  when the poll fails before.
\<close>

definition candidates :: "procfs \<Rightarrow> rawProcess list" where
  "candidates env =
     (case ReadDir_proc env of
        None \<Rightarrow> []
      | Some entries \<Rightarrow>
          (case collect env entries Map.empty [] of
             Inl e \<Rightarrow> []
           | Inr (currentCPUTimes, rawProcesses) \<Rightarrow>
               sort_Slice (\<lambda>a b. StartTime (proc a) < StartTime (proc b)) rawProcesses))"

text \<open>The interval a poll divides by: the time since the previous poll, at least 0.1 s.\<close>

definition elapsedSeconds :: "procfs \<Rightarrow> ProcessMonitor \<Rightarrow> real" where
  "elapsedSeconds env pm =
     (let elapsed = Seconds (Now env - prevSample pm)
      in if elapsed < 0.1 then 0.1 else elapsed)"

text \<open>The percentage the second pass stores for a process with a previous counter pair.\<close>

definition percentOf :: "cpuTime \<Rightarrow> cpuTime \<Rightarrow> real \<Rightarrow> real \<Rightarrow> real" where
  "percentOf prev ct clk elapsed =
     (let totalDelta = real (unat ((utime ct - utime prev) + (stime ct - stime prev)));
          c0 = (totalDelta / clk / elapsed) * 100;
          c1 = (if c0 < 0 then 0 else c0)
      in if c1 > 100 then 100 else c1)"

text \<open>One round of the second pass: the record it appends.\<close>

definition assignOne ::
  "(int \<rightharpoonup> cpuTime) \<Rightarrow> real \<Rightarrow> real \<Rightarrow> rawProcess \<Rightarrow> (string \<rightharpoonup> int) \<Rightarrow> ClaudeProcess" where
  "assignOne prevTimes clk elapsed rp nameCount =
     (let p1 = (case prevTimes (PID (proc rp)) of
                  Some prev \<Rightarrow> (proc rp)\<lparr>CPUPercent := percentOf prev (cpuTime rp) clk elapsed\<rparr>
                | None \<Rightarrow> proc rp);
          n = nameCount_get nameCount (Name (proc rp)) + 1
      in if n > 1 then p1\<lparr>Name := Name (proc rp) @ '' ('' @ getOrdinalSuffix n @ '')''\<rparr>
         else p1)"

text \<open>How a returned record relates to the candidate it was made from.\<close>

definition related ::
  "(int \<rightharpoonup> cpuTime) \<Rightarrow> real \<Rightarrow> real \<Rightarrow> rawProcess \<Rightarrow> ClaudeProcess \<Rightarrow> bool" where
  "related prevTimes clk elapsed rp p \<longleftrightarrow>
     PID p = PID (proc rp) \<and> StartTime p = StartTime (proc rp) \<and>
     WorkingDir p = WorkingDir (proc rp) \<and> MemoryMB p = MemoryMB (proc rp) \<and>
     CPUPercent p = (case prevTimes (PID (proc rp)) of
                       None \<Rightarrow> CPUPercent (proc rp)
                     | Some prev \<Rightarrow> percentOf prev (cpuTime rp) clk elapsed)"

text \<open>The display name of the \<open>n\<close>-th process with a given base name.\<close>

definition displayName :: "string \<Rightarrow> int \<Rightarrow> string" where
  "displayName baseName n =
     (if n > 1 then baseName @ '' ('' @ getOrdinalSuffix n @ '')'' else baseName)"

text \<open>
  What the first pass maintains: the keys of \<^verbatim>\<open>currentCPUTimes\<close> are the process ids
  of \<^verbatim>\<open>rawProcesses\<close>, each bound to the counters read for it, and no percentage is set.
\<close>

definition collected :: "procfs \<Rightarrow> (int \<rightharpoonup> cpuTime) \<Rightarrow> rawProcess list \<Rightarrow> bool" where
  "collected env cur raw \<longleftrightarrow>
     dom cur = (\<lambda>r. PID (proc r)) ` set raw \<and>
     (\<forall>r \<in> set raw. cur (PID (proc r)) = Some (cpuTime r) \<and>
                      getCPUTime env (PID (proc r)) = Inr (cpuTime r) \<and>
                      CPUPercent (proc r) = 0)"

subsection \<open>Example process tables\<close>

text \<open>
  A \<^verbatim>\<open>stat\<close> record in the kernel's layout, with the two CPU counters and the start time
  as given, and a process table made of entries (process id, working directory, user ticks,
  kernel ticks, start ticks). The uptime is 100000 s and the wall clock 1700000000 s.
\<close>

definition statLine :: "string \<Rightarrow> string \<Rightarrow> string \<Rightarrow> string \<Rightarrow> string" where
  "statLine pid ut st start =
     pid @ '' (claude) S 1 1 1 0 -1 4194304 100 0 0 0 '' @ ut @ '' '' @ st
         @ '' 0 0 20 0 1 0 '' @ start @ '' 1000000 200''"

definition procFiles ::
  "string \<times> string \<times> string \<times> string \<times> string \<Rightarrow> (string \<times> string) list" where
  "procFiles e =
     (case e of (pid, cwd, ut, st, start) \<Rightarrow>
        [(''/proc/'' @ pid @ ''/comm'', ''claude'' @ [CHR 0x0A]),
         (''/proc/'' @ pid @ ''/stat'', statLine pid ut st start),
         (''/proc/'' @ pid @ ''/statm'', ''5000 2560 300 1 0 400 0'')])"

definition exampleTable ::
  "(string \<times> string \<times> string \<times> string \<times> string) list \<Rightarrow> procfs" where
  "exampleTable es =
     \<lparr>ReadDir_proc = Some (map (\<lambda>e. \<lparr>entry_Name = fst e, entry_IsDir = True\<rparr>) es),
      ReadFile = map_of ((''/proc/uptime'', ''100000.00 50000.00'') # concat (map procFiles es)),
      Readlink = map_of (map (\<lambda>e. (''/proc/'' @ fst e @ ''/cwd'', fst (snd e))) es),
      Getpagesize = 4096,
      ParseFloat = (\<lambda>s. if s = ''100000.00'' then 100000 else 0),
      Now = 5000000000, Now_Unix = 1700000000, GetMainTemperature = 45\<rparr>"

text \<open>
  One process in \<^verbatim>\<open>/home/user/demo\<close> with 700 + 450 = 1150 ticks, polled five seconds
  after a poll that saw 600 + 400 = 1000 ticks.
\<close>

definition demoTable :: procfs where
  "demoTable = exampleTable [(''1234'', ''/home/user/demo'', ''700'', ''450'', ''5000'')]"

definition demoMonitor :: ProcessMonitor where
  "demoMonitor = \<lparr>prevCPUTimes = [1234 \<mapsto> \<lparr>utime = 600, stime = 400\<rparr>],
                   prevSample = 0, clkTck = 100\<rparr>"

definition demoProcess :: ClaudeProcess where
  "demoProcess = \<lparr>PID = 1234, Name = ''demo'', WorkingDir = ''/home/user/demo'',
                   CPUPercent = 30, MemoryMB = 10, StartTime = 1699900050\<rparr>"

definition demoMonitor' :: ProcessMonitor where
  "demoMonitor' = \<lparr>prevCPUTimes = [1234 \<mapsto> \<lparr>utime = 700, stime = 450\<rparr>],
                    prevSample = 5000000000, clkTck = 100\<rparr>"

text \<open>The same process with counters that went back to 500 + 400 = 900 ticks.\<close>

definition regressedTable :: procfs where
  "regressedTable = exampleTable [(''1234'', ''/home/user/demo'', ''500'', ''400'', ''5000'')]"

text \<open>A monitor that has not seen any process yet.\<close>

definition freshMonitor :: ProcessMonitor where
  "freshMonitor = \<lparr>prevCPUTimes = Map.empty, prevSample = 0, clkTck = 100\<rparr>"

text \<open>
  Three processes, listed by process id, started in the order 102, 101, 103, and the same
  with a fourth process; two processes 10 and 9 started in the same second, listed in the
  order of their names, as \<^verbatim>\<open>os.ReadDir\<close> does.
\<close>

definition projTable :: procfs where
  "projTable = exampleTable
     [(''101'', ''/b/proj'', ''10'', ''5'', ''2000''),
      (''102'', ''/a/proj'', ''10'', ''5'', ''1000''),
      (''103'', ''/c/other'', ''10'', ''5'', ''3000'')]"

definition projTable4 :: procfs where
  "projTable4 = exampleTable
     [(''101'', ''/b/proj'', ''10'', ''5'', ''2000''),
      (''102'', ''/a/proj'', ''10'', ''5'', ''1000''),
      (''103'', ''/c/proj'', ''10'', ''5'', ''3000''),
      (''104'', ''/d/proj'', ''10'', ''5'', ''4000'')]"

definition tieTable :: procfs where
  "tieTable = exampleTable
     [(''10'', ''/a/proj'', ''10'', ''5'', ''5000''),
      (''9'', ''/b/proj'', ''10'', ''5'', ''5000'')]"

text \<open>
  A process whose \<^verbatim>\<open>stat\<close> record ends after the twelfth field behind the command name,
  and a process table whose root cannot be listed.
\<close>

definition truncatedTable :: procfs where
  "truncatedTable =
     (exampleTable [])
       \<lparr>ReadDir_proc := Some [\<lparr>entry_Name = ''7'', entry_IsDir = True\<rparr>],
        ReadFile := [''/proc/7/comm'' \<mapsto> ''claude'',
                     ''/proc/7/stat'' \<mapsto> ''7 (claude) S 1 2 3 4 5 6 7 8 9 10 11'']\<rparr>"

definition unreadableRoot :: procfs where
  "unreadableRoot = (exampleTable [])\<lparr>ReadDir_proc := None\<rparr>"

definition demoHandler :: Handler where
  "demoHandler = \<lparr>processMonitor = demoMonitor, history = NewHistoryBuffer\<rparr>"

text \<open>What the polls of the examples return.\<close>

definition regressedMonitor' :: ProcessMonitor where
  "regressedMonitor' = \<lparr>prevCPUTimes = [1234 \<mapsto> \<lparr>utime = 500, stime = 400\<rparr>],
                         prevSample = 5000000000, clkTck = 100\<rparr>"

definition exampleProcess :: "int \<Rightarrow> string \<Rightarrow> string \<Rightarrow> int \<Rightarrow> ClaudeProcess" where
  "exampleProcess pid name cwd start =
     \<lparr>PID = pid, Name = name, WorkingDir = cwd, CPUPercent = 0, MemoryMB = 10,
      StartTime = start\<rparr>"

definition projProcesses :: "ClaudeProcess list" where
  "projProcesses =
     [exampleProcess 102 ''proj'' ''/a/proj'' 1699900010,
      exampleProcess 101 ''proj (2nd)'' ''/b/proj'' 1699900020,
      exampleProcess 103 ''other'' ''/c/other'' 1699900030]"

definition projMonitor' :: ProcessMonitor where
  "projMonitor' =
     \<lparr>prevCPUTimes = [101 \<mapsto> \<lparr>utime = 10, stime = 5\<rparr>, 102 \<mapsto> \<lparr>utime = 10, stime = 5\<rparr>,
                       103 \<mapsto> \<lparr>utime = 10, stime = 5\<rparr>],
      prevSample = 5000000000, clkTck = 100\<rparr>"

definition tieProcesses :: "ClaudeProcess list" where
  "tieProcesses =
     [exampleProcess 10 ''proj'' ''/a/proj'' 1699900050,
      exampleProcess 9 ''proj (2nd)'' ''/b/proj'' 1699900050]"

definition tieMonitor' :: ProcessMonitor where
  "tieMonitor' =
     \<lparr>prevCPUTimes = [10 \<mapsto> \<lparr>utime = 10, stime = 5\<rparr>, 9 \<mapsto> \<lparr>utime = 10, stime = 5\<rparr>],
      prevSample = 5000000000, clkTck = 100\<rparr>"

section \<open>Properties of the ring buffer\<close>

lemma MaxSamples_eq: "MaxSamples = 360"
  by (simp add: MaxSamples_def HistoryDuration_def SampleInterval_def)

lemma hb_inv_New: "hb_inv NewHistoryBuffer"
  by (simp add: hb_inv_def NewHistoryBuffer_def MaxSamples_eq)

lemma hb_inv_Clear: "hb_inv hb \<Longrightarrow> hb_inv (Clear hb)"
  by (auto simp: hb_inv_def Clear_def MaxSamples_eq)

lemma length_chronological: "hb_inv hb \<Longrightarrow> length (chronological hb) = count hb"
  by (auto simp: hb_inv_def chronological_def)

lemma GetAll_chronological: "hb_inv hb \<Longrightarrow> GetAll hb = Inr (chronological hb)"
  by (auto simp: hb_inv_def GetAll_def chronological_def copy_def Let_def MaxSamples_eq)

lemma MaxSamples_pos: "0 < MaxSamples"
  by (simp add: MaxSamples_eq)

lemma Add_not_full:
  assumes "length (data hb) = MaxSamples" "count hb < MaxSamples" "head hb = count hb"
  shows "\<exists>hb'. Add hb p = Inr hb' \<and> hb_inv hb' \<and>
           chronological hb' = chronological hb @ [p] \<and> count hb' = count hb + 1"
proof (cases "count hb + 1 < MaxSamples")
  case True
  have "take (Suc (count hb)) ((data hb)[count hb := p]) = take (count hb) (data hb) @ [p]"
    using assms by (simp add: take_Suc_conv_app_nth)
  with True assms show ?thesis
    by (simp add: Add_def Let_def hb_inv_def chronological_def)
next
  case False
  with assms have full: "Suc (count hb) = MaxSamples" by simp
  have "(data hb)[count hb := p] = take (count hb) (data hb) @ [p]"
    using assms full
    by (metis lessI length_list_update nth_list_update_eq take_Suc_conv_app_nth
        take_all_iff order_refl take_update_cancel)
  with assms full MaxSamples_pos show ?thesis
    by (simp add: Add_def Let_def hb_inv_def chronological_def)
qed

lemma Add_full:
  assumes "length (data hb) = MaxSamples" "count hb = MaxSamples" "head hb < MaxSamples"
  shows "\<exists>hb'. Add hb p = Inr hb' \<and> hb_inv hb' \<and>
           chronological hb' = tl (chronological hb) @ [p] \<and> count hb' = count hb"
proof (cases "head hb + 1 < MaxSamples")
  case True
  have a: "drop (Suc (head hb)) ((data hb)[head hb := p]) = drop (Suc (head hb)) (data hb)"
    by simp
  have b: "take (Suc (head hb)) ((data hb)[head hb := p]) = take (head hb) (data hb) @ [p]"
    using assms by (simp add: take_Suc_conv_app_nth)
  have c: "tl (drop (head hb) (data hb)) = drop (Suc (head hb)) (data hb)"
    by (simp add: drop_Suc tl_drop)
  have d: "drop (head hb) (data hb) \<noteq> []"
    using assms by simp
  from True assms a b c d show ?thesis
    by (simp add: Add_def Let_def hb_inv_def chronological_def)
next
  case False
  with assms have last: "Suc (head hb) = MaxSamples" by simp
  have a: "(data hb)[head hb := p] = take (head hb) (data hb) @ [p]"
    using assms last
    by (metis lessI length_list_update nth_list_update_eq take_Suc_conv_app_nth
        take_all_iff order_refl take_update_cancel)
  have "length (drop (head hb) (data hb)) = 1"
    using assms last by simp
  then have b: "tl (drop (head hb) (data hb)) = []"
    by (cases "drop (head hb) (data hb)") simp_all
  have d: "drop (head hb) (data hb) \<noteq> []"
    using assms by simp
  from assms last a b d MaxSamples_pos show ?thesis
    by (simp add: Add_def Let_def hb_inv_def chronological_def)
qed

lemma keep_last_short: "length xs \<le> n \<Longrightarrow> keep_last n xs = xs"
  by (simp add: keep_last_def)

lemma keep_last_snoc_full: "length xs = n \<Longrightarrow> 0 < n \<Longrightarrow> keep_last n (xs @ [p]) = tl xs @ [p]"
  by (cases xs) (simp_all add: keep_last_def)

lemma keep_last_keep_last: "keep_last n (keep_last n ys @ xs) = keep_last n (ys @ xs)"
proof (cases "length ys \<le> n")
  case True
  then show ?thesis by (simp add: keep_last_def)
next
  case False
  then have "length ys + length xs - n = length ys - n + length xs"
    by simp
  with False show ?thesis by (simp add: keep_last_def add.commute)
qed

lemma Add_inv:
  assumes "hb_inv hb"
  shows "\<exists>hb'. Add hb p = Inr hb' \<and> hb_inv hb' \<and>
           chronological hb' = keep_last MaxSamples (chronological hb @ [p])"
proof (cases "count hb < MaxSamples")
  case True
  with assms have h: "length (data hb) = MaxSamples" "head hb = count hb"
    by (simp_all add: hb_inv_def)
  have "length (chronological hb @ [p]) \<le> MaxSamples"
    using True assms by (simp add: length_chronological)
  then have "keep_last MaxSamples (chronological hb @ [p]) = chronological hb @ [p]"
    by (rule keep_last_short)
  with Add_not_full [OF h(1) True h(2), of p] show ?thesis by auto
next
  case False
  with assms have h: "length (data hb) = MaxSamples" "count hb = MaxSamples"
    "head hb < MaxSamples"
    by (auto simp: hb_inv_def)
  have "length (chronological hb) = MaxSamples"
    using assms h by (simp add: length_chronological)
  then have "keep_last MaxSamples (chronological hb @ [p]) = tl (chronological hb) @ [p]"
    using MaxSamples_pos by (rule keep_last_snoc_full)
  with Add_full [OF h, of p] show ?thesis by auto
qed

lemma add_all_inv:
  "hb_inv hb \<Longrightarrow>
   \<exists>hb'. add_all hb ps = Inr hb' \<and> hb_inv hb' \<and>
         chronological hb' = keep_last MaxSamples (chronological hb @ ps)"
proof (induction ps arbitrary: hb)
  case Nil
  then have "length (chronological hb) \<le> MaxSamples"
    by (auto simp: length_chronological hb_inv_def)
  with Nil show ?case
    by (simp add: keep_last_short)
next
  case (Cons p ps)
  from Add_inv [OF Cons.prems, of p] obtain hb1 where
    1: "Add hb p = Inr hb1" "hb_inv hb1"
       "chronological hb1 = keep_last MaxSamples (chronological hb @ [p])"
    by blast
  from Cons.IH [OF 1(2)] obtain hb2 where
    2: "add_all hb1 ps = Inr hb2" "hb_inv hb2"
       "chronological hb2 = keep_last MaxSamples (chronological hb1 @ ps)"
    by blast
  have "chronological hb2 = keep_last MaxSamples (chronological hb @ p # ps)"
    using 1(3) 2(3) keep_last_keep_last [of MaxSamples "chronological hb @ [p]" ps] by simp
  with 1 2 show ?case by simp
qed

lemma add_all_fills:
  assumes "hb_inv hb0" "count hb0 = 0"
  shows "\<exists>hb. add_all hb0 ps = Inr hb \<and> hb_inv hb \<and>
           chronological hb = keep_last MaxSamples ps \<and>
           count hb = min (length ps) MaxSamples"
proof -
  have e: "chronological hb0 = []"
    using assms MaxSamples_pos by (simp add: chronological_def)
  from add_all_inv [OF assms(1), of ps] e obtain hb where
    h: "add_all hb0 ps = Inr hb" "hb_inv hb" "chronological hb = keep_last MaxSamples ps"
    by auto
  have "count hb = length (keep_last MaxSamples ps)"
    using h by (metis length_chronological)
  then have "count hb = min (length ps) MaxSamples"
    by (simp add: keep_last_def)
  with h show ?thesis by blast
qed

text \<open>
  \<^verbatim>\<open>GetLast\<close> is meant for a number of samples; the slice expression has no lower
  bound for a negative argument.
\<close>

lemma GetLast_negative:
  assumes "hb_inv hb" and "n < 0"
  shows "GetLast hb n = Inl SliceBoundsOutOfRange"
  using assms GetAll_chronological [OF assms(1)]
  by (simp add: GetLast_def Let_def)

section \<open>Properties of the process monitor\<close>

subsection \<open>Sorting\<close>

lemma mset_insertionStep: "mset (insertionStep lt x ys) = add_mset x (mset ys)"
  by (induction ys) simp_all

lemma mset_foldl_insertionStep:
  "mset (foldl (\<lambda>acc x. insertionStep lt x acc) acc xs) = mset acc + mset xs"
  by (induction xs arbitrary: acc) (simp_all add: mset_insertionStep)

lemma mset_sort_Slice: "mset (sort_Slice lt xs) = mset xs"
  by (simp add: sort_Slice_def mset_foldl_insertionStep)

lemma set_sort_Slice: "set (sort_Slice lt xs) = set xs"
  using mset_sort_Slice [of lt xs] by (metis set_mset_mset)

lemma length_sort_Slice: "length (sort_Slice lt xs) = length xs"
  using mset_sort_Slice [of lt xs] by (metis size_mset)

lemma set_insertionStep: "set (insertionStep lt x ys) = insert x (set ys)"
  using mset_insertionStep [of lt x ys] by (metis set_mset_add_mset_insert set_mset_mset)

lemma descending_insertionStep:
  fixes f :: "'a \<Rightarrow> int"
  assumes "sorted_wrt (\<lambda>a b. f b \<le> f a) ys"
  shows "sorted_wrt (\<lambda>a b. f b \<le> f a) (insertionStep (\<lambda>a b. f a < f b) x ys)"
  using assms
proof (induction ys)
  case Nil
  then show ?case by simp
next
  case (Cons y ys)
  show ?case
  proof (cases "f x < f y")
    case True
    with Cons show ?thesis
      by (auto simp: set_insertionStep)
  next
    case False
    with Cons show ?thesis by auto
  qed
qed

lemma descending_foldl:
  fixes f :: "'a \<Rightarrow> int"
  assumes "sorted_wrt (\<lambda>a b. f b \<le> f a) acc"
  shows "sorted_wrt (\<lambda>a b. f b \<le> f a)
           (foldl (\<lambda>acc x. insertionStep (\<lambda>a b. f a < f b) x acc) acc xs)"
  using assms
  by (induction xs arbitrary: acc) (simp_all add: descending_insertionStep)

lemma sorted_sort_Slice:
  fixes f :: "'a \<Rightarrow> int"
  shows "sorted_wrt (\<lambda>a b. f a \<le> f b) (sort_Slice (\<lambda>a b. f a < f b) xs)"
proof -
  have "sorted_wrt (\<lambda>a b. f b \<le> f a)
          (foldl (\<lambda>acc x. insertionStep (\<lambda>a b. f a < f b) x acc) [] xs)"
    by (rule descending_foldl) simp
  then show ?thesis
    by (simp add: sort_Slice_def sorted_wrt_rev)
qed

subsection \<open>The two passes\<close>

lemma assign_acc:
  "assign prevTimes clk elapsed rps nameCount acc
     = acc @ assign prevTimes clk elapsed rps nameCount []"
proof (induction rps arbitrary: nameCount acc)
  case Nil
  then show ?case by (simp add: assign.simps)
next
  case (Cons rp rps)
  show ?case
    apply (simp only: assign.simps Let_def)
    apply (subst Cons.IH)
    apply (subst (2) Cons.IH)
    apply simp
    done
qed

lemma assign_Cons:
  "assign prevTimes clk elapsed (rp # rps) nameCount [] =
     assignOne prevTimes clk elapsed rp nameCount
     # assign prevTimes clk elapsed rps
         (nameCount(Name (proc rp) \<mapsto> nameCount_get nameCount (Name (proc rp)) + 1)) []"
  apply (simp only: assign.simps Let_def)
  apply (subst assign_acc)
  apply (simp add: assignOne_def percentOf_def nameCount_get_def Let_def split: option.split)
  done

lemma assign_Nil: "assign prevTimes clk elapsed [] nameCount [] = []"
  by (simp add: assign.simps)

lemma related_assignOne: "related prevTimes clk elapsed rp (assignOne prevTimes clk elapsed rp nameCount)"
  by (simp add: related_def assignOne_def Let_def split: option.split)

lemma Name_assignOne:
  "Name (assignOne prevTimes clk elapsed rp nameCount) =
     displayName (Name (proc rp)) (nameCount_get nameCount (Name (proc rp)) + 1)"
  by (simp add: displayName_def assignOne_def Let_def split: option.split)

lemma assign_related:
  "list_all2 (related prevTimes clk elapsed) rps (assign prevTimes clk elapsed rps nameCount [])"
  by (induction rps arbitrary: nameCount)
     (simp_all add: assign_Nil assign_Cons related_assignOne)

lemma assign_names:
  "i < length rps \<Longrightarrow>
   Name (assign prevTimes clk elapsed rps nameCount [] ! i) =
     displayName (Name (proc (rps ! i)))
       (nameCount_get nameCount (Name (proc (rps ! i)))
        + int (count_list (map (\<lambda>rp. Name (proc rp)) (take (Suc i) rps)) (Name (proc (rps ! i)))))"
proof (induction rps arbitrary: nameCount i)
  case Nil
  then show ?case by simp
next
  case (Cons rp rps)
  let ?nc1 = "nameCount(Name (proc rp) \<mapsto> nameCount_get nameCount (Name (proc rp)) + 1)"
  show ?case
  proof (cases i)
    case 0
    then show ?thesis
      by (simp add: assign_Cons Name_assignOne)
  next
    case (Suc j)
    with Cons.prems have j: "j < length rps" by simp
    have get: "nameCount_get ?nc1 b =
        (if b = Name (proc rp) then nameCount_get nameCount b + 1 else nameCount_get nameCount b)" for b
      by (simp add: nameCount_get_def)
    let ?b = "Name (proc (rps ! j))"
    let ?c = "count_list (map (\<lambda>rp. Name (proc rp)) (take (Suc j) rps)) ?b"
    have lhs: "assign prevTimes clk elapsed (rp # rps) nameCount [] ! i
                 = assign prevTimes clk elapsed rps ?nc1 [] ! j"
      by (simp only: assign_Cons Suc nth_Cons_Suc)
    have elem: "(rp # rps) ! i = rps ! j"
      by (simp add: Suc)
    have cnt: "count_list (map (\<lambda>rp. Name (proc rp)) (take (Suc i) (rp # rps))) ?b
                 = (if ?b = Name (proc rp) then ?c + 1 else ?c)"
      by (simp add: Suc)
    have eq: "nameCount_get ?nc1 ?b + int ?c
            = nameCount_get nameCount ?b
              + int (count_list (map (\<lambda>rp. Name (proc rp)) (take (Suc i) (rp # rps))) ?b)"
      unfolding cnt get by simp
    have "Name (assign prevTimes clk elapsed (rp # rps) nameCount [] ! i)
            = Name (assign prevTimes clk elapsed rps ?nc1 [] ! j)"
      by (simp only: lhs)
    also have "\<dots> = displayName ?b (nameCount_get ?nc1 ?b + int ?c)"
      by (rule Cons.IH [OF j])
    also have "\<dots> = displayName ?b (nameCount_get nameCount ?b
              + int (count_list (map (\<lambda>rp. Name (proc rp)) (take (Suc i) (rp # rps))) ?b))"
      by (simp only: eq)
    finally show ?thesis
      by (simp only: elem)
  qed
qed

lemma collected_step:
  assumes "collected env cur raw" "getCPUTime env pid = Inr ct" "PID p = pid" "CPUPercent p = 0"
  shows "collected env (cur(pid \<mapsto> ct)) (raw @ [\<lparr>proc = p, cpuTime = ct\<rparr>])"
  using assms unfolding collected_def by auto

lemma collect_collected:
  "collected env cur raw \<Longrightarrow> collect env entries cur raw = Inr (cur', raw')
     \<Longrightarrow> collected env cur' raw'"
proof (induction entries arbitrary: cur raw)
  case Nil
  then show ?case by simp
next
  case (Cons entry entries)
  show ?case
  proof (cases "entry_IsDir entry")
    case False
    with Cons show ?thesis by simp
  next
    case True
    show ?thesis
    proof (cases "Atoi (entry_Name entry)")
      case None
      with True Cons show ?thesis by simp
    next
      case (Some pid)
      show ?thesis
      proof (cases "isClaude env pid")
        case False
        with True Some Cons show ?thesis by simp
      next
        case ic: True
        from Cons.prems(2) True Some ic obtain mem ct st where
          r: "getMemoryMB env pid = Inr mem" "getCPUTime env pid = Inr ct"
             "getStartTime env pid = Inr st"
          by (auto simp: Let_def split: sum.splits)
        let ?p0 = "\<lparr>PID = pid, Name = [], WorkingDir = [], CPUPercent = 0,
                                 MemoryMB = 0, StartTime = 0\<rparr>"
        let ?p1 = "(case Readlink env (Join3 ''/proc'' (entry_Name entry) ''cwd'') of
                                  Some cwd \<Rightarrow> ?p0\<lparr>WorkingDir := cwd, Name := Base cwd\<rparr>
                                | None \<Rightarrow> ?p0\<lparr>Name := ''claude''\<rparr>)"
        let ?p3 = "?p1\<lparr>MemoryMB := mem, StartTime := st\<rparr>"
        have rec: "collect env entries (cur(pid \<mapsto> ct)) (raw @ [\<lparr>proc = ?p3, cpuTime = ct\<rparr>])
                     = Inr (cur', raw')"
          using Cons.prems(2) True Some ic r by (simp add: Let_def)
        have "PID ?p3 = pid" "CPUPercent ?p3 = 0"
          by (simp_all split: option.split)
        with Cons.prems(1) r(2) have
          "collected env (cur(pid \<mapsto> ct)) (raw @ [\<lparr>proc = ?p3, cpuTime = ct\<rparr>])"
          by (intro collected_step)
        from Cons.IH [OF this rec] show ?thesis .
      qed
    qed
  qed
qed

lemma collected_empty: "collected env Map.empty []"
  by (simp add: collected_def)

lemma GetProcesses_success:
  assumes "GetProcesses env pm = Inr (procs, pm')"
  shows "\<exists>entries cur raw.
           ReadDir_proc env = Some entries \<and>
           collect env entries Map.empty [] = Inr (cur, raw) \<and>
           collected env cur raw \<and>
           candidates env = sort_Slice (\<lambda>a b. StartTime (proc a) < StartTime (proc b)) raw \<and>
           procs = assign (prevCPUTimes pm) (clkTck pm) (elapsedSeconds env pm)
                     (candidates env) Map.empty [] \<and>
           pm' = pm\<lparr>prevCPUTimes := cur, prevSample := Now env\<rparr>"
proof -
  from assms obtain entries where e: "ReadDir_proc env = Some entries"
    by (auto simp: GetProcesses_def split: option.splits)
  with assms obtain cur raw where c: "collect env entries Map.empty [] = Inr (cur, raw)"
    by (auto simp: GetProcesses_def Let_def split: sum.splits)
  have id: "(\<lambda>pid. if cur pid = None then None else cur pid) = cur"
    by auto
  from assms e c have
    "procs = assign (prevCPUTimes pm) (clkTck pm) (elapsedSeconds env pm)
               (candidates env) Map.empty []"
    "pm' = pm\<lparr>prevCPUTimes := cur, prevSample := Now env\<rparr>"
    by (auto simp add: GetProcesses_def candidates_def elapsedSeconds_def Let_def id cong: if_cong)
  moreover have "collected env cur raw"
    using collected_empty c by (rule collect_collected)
  moreover have "candidates env = sort_Slice (\<lambda>a b. StartTime (proc a) < StartTime (proc b)) raw"
    using e c by (simp add: candidates_def)
  ultimately show ?thesis using e c by blast
qed

lemma GetProcesses_eval:
  assumes "ReadDir_proc env = Some entries"
    and "collect env entries Map.empty [] = Inr (cur, raw)"
  shows "GetProcesses env pm =
           Inr (assign (prevCPUTimes pm) (clkTck pm) (elapsedSeconds env pm)
                  (sort_Slice (\<lambda>a b. StartTime (proc a) < StartTime (proc b)) raw) Map.empty [],
                pm\<lparr>prevCPUTimes := cur, prevSample := Now env\<rparr>)"
proof -
  have id: "(\<lambda>pid. if cur pid = None then None else cur pid) = cur"
    by auto
  from assms show ?thesis
    by (auto simp add: GetProcesses_def elapsedSeconds_def Let_def id cong: if_cong)
qed

lemma GetProcesses_collect_fails:
  assumes "ReadDir_proc env = Some entries"
    and "collect env entries Map.empty [] = Inl e"
  shows "GetProcesses env pm = Inl e"
  using assms by (simp add: GetProcesses_def Let_def)

lemma GetProcesses_error_iff:
  "GetProcesses env pm = Inl ReadProcError \<longleftrightarrow> ReadDir_proc env = None \<or>
     (\<exists>entries. ReadDir_proc env = Some entries \<and>
                collect env entries Map.empty [] = Inl ReadProcError)"
  by (auto simp: GetProcesses_def Let_def split: option.splits sum.splits)

subsection \<open>What a successful poll returns\<close>

lemma related_set:
  assumes "list_all2 (related prevTimes clk elapsed) rps ps" and "p \<in> set ps"
  shows "\<exists>rp \<in> set rps. related prevTimes clk elapsed rp p"
proof -
  from assms(2) obtain i where i: "i < length ps" "p = ps ! i"
    by (auto simp: in_set_conv_nth)
  with assms(1) have "related prevTimes clk elapsed (rps ! i) p" "i < length rps"
    by (auto simp: list_all2_conv_all_nth)
  then show ?thesis
    using nth_mem by blast
qed

lemma related_PIDs:
  assumes "list_all2 (related prevTimes clk elapsed) rps ps"
  shows "map PID ps = map (\<lambda>r. PID (proc r)) rps"
  using assms by (induction rule: list_all2_induct) (simp_all add: related_def)

lemma related_StartTimes:
  assumes "list_all2 (related prevTimes clk elapsed) rps ps"
  shows "map StartTime ps = map (\<lambda>r. StartTime (proc r)) rps"
  using assms by (induction rule: list_all2_induct) (simp_all add: related_def)

lemma GetProcesses_related:
  assumes "GetProcesses env pm = Inr (procs, pm')"
  shows "list_all2 (related (prevCPUTimes pm) (clkTck pm) (elapsedSeconds env pm))
           (candidates env) procs"
  using GetProcesses_success [OF assms] assign_related by auto

lemma GetProcesses_collected:
  assumes "GetProcesses env pm = Inr (procs, pm')"
  shows "collected env (prevCPUTimes pm') (candidates env)"
proof -
  from GetProcesses_success [OF assms] obtain entries cur raw where
    h: "collected env cur raw"
       "candidates env = sort_Slice (\<lambda>a b. StartTime (proc a) < StartTime (proc b)) raw"
       "pm' = pm\<lparr>prevCPUTimes := cur, prevSample := Now env\<rparr>"
    by blast
  have "set (candidates env) = set raw"
    by (simp add: h(2) set_sort_Slice)
  with h(1,3) show ?thesis
    by (simp add: collected_def)
qed

lemma dom_prevCPUTimes:
  assumes "GetProcesses env pm = Inr (procs, pm')"
  shows "dom (prevCPUTimes pm') = PID ` set procs"
proof -
  have "PID ` set procs = set (map PID procs)"
    by simp
  also have "\<dots> = set (map (\<lambda>r. PID (proc r)) (candidates env))"
    using related_PIDs [OF GetProcesses_related [OF assms]] by simp
  also have "\<dots> = (\<lambda>r. PID (proc r)) ` set (candidates env)"
    by simp
  finally show ?thesis
    using GetProcesses_collected [OF assms] by (simp add: collected_def)
qed

lemma percent_nonneg:
  fixes clk elapsed :: real
  assumes "0 < clk" "0 < elapsed"
  shows "0 \<le> real n / clk / elapsed * 100"
proof -
  have n: "0 \<le> real n"
    by simp
  have "0 \<le> real n / clk / elapsed"
    by (rule divide_nonneg_pos [OF divide_nonneg_pos [OF n assms(1)] assms(2)])
  then show ?thesis
    by (rule mult_nonneg_nonneg) simp
qed

lemma percentOf_eq:
  assumes "0 < clk" "0 < elapsed"
  shows "percentOf prev ct clk elapsed =
           min 100 (real (unat ((utime ct - utime prev) + (stime ct - stime prev)))
                      / clk / elapsed * 100)"
  using percent_nonneg [OF assms, of "unat ((utime ct - utime prev) + (stime ct - stime prev))"]
  unfolding percentOf_def Let_def min_def by (simp del: of_nat_add)

lemma percentOf_range:
  assumes "0 < clk" "0 < elapsed"
  shows "0 \<le> percentOf prev ct clk elapsed \<and> percentOf prev ct clk elapsed \<le> 100"
  using percent_nonneg [OF assms, of "unat ((utime ct - utime prev) + (stime ct - stime prev))"]
  unfolding percentOf_eq [OF assms] by (simp del: of_nat_add)

lemma elapsedSeconds_eq: "elapsedSeconds env pm = max (Seconds (Now env - prevSample pm)) (1 / 10)"
  by (simp add: elapsedSeconds_def Let_def max_def)

lemma elapsedSeconds_pos: "0 < elapsedSeconds env pm"
  by (simp add: elapsedSeconds_eq)

lemma total_delta:
  fixes cu cs pu ps :: "64 word"
  assumes "unat pu + unat ps \<le> unat cu + unat cs" and "unat cu + unat cs < 2 ^ 64"
  shows "unat ((cu - pu) + (cs - ps)) = (unat cu + unat cs) - (unat pu + unat ps)"
proof -
  have c: "unat (cu + cs) = unat cu + unat cs"
    using assms(2) by (simp add: unat_add_lem [THEN iffD1])
  have p: "unat (pu + ps) = unat pu + unat ps"
    using assms by (simp add: unat_add_lem [THEN iffD1])
  have le: "pu + ps \<le> cu + cs"
    using assms(1) c p by (simp add: word_le_nat_alt)
  have e: "(cu - pu) + (cs - ps) = (cu + cs) - (pu + ps)"
    by simp
  show ?thesis
    unfolding e unat_sub [OF le] c p by (rule refl)
qed

lemma filter_insertionStep:
  fixes f :: "'a \<Rightarrow> int"
  shows "filter (\<lambda>y. f y = k) (insertionStep (\<lambda>a b. f a < f b) x ys) =
           (if f x = k then x # filter (\<lambda>y. f y = k) ys else filter (\<lambda>y. f y = k) ys)"
  by (induction ys) auto

lemma filter_foldl_insertionStep:
  fixes f :: "'a \<Rightarrow> int"
  shows "filter (\<lambda>y. f y = k) (foldl (\<lambda>acc x. insertionStep (\<lambda>a b. f a < f b) x acc) acc xs) =
           rev (filter (\<lambda>y. f y = k) xs) @ filter (\<lambda>y. f y = k) acc"
  by (induction xs arbitrary: acc) (simp_all add: filter_insertionStep)

lemma sort_Slice_stable:
  fixes f :: "'a \<Rightarrow> int"
  shows "filter (\<lambda>y. f y = k) (sort_Slice (\<lambda>a b. f a < f b) xs) = filter (\<lambda>y. f y = k) xs"
  by (simp add: sort_Slice_def filter_foldl_insertionStep flip: rev_filter)

lemma related_filter_StartTime:
  assumes "list_all2 (related prevTimes clk elapsed) rps ps"
  shows "map PID (filter (\<lambda>p. StartTime p = t) ps) =
           map (\<lambda>r. PID (proc r)) (filter (\<lambda>r. StartTime (proc r) = t) rps)"
  using assms by (induction rule: list_all2_induct) (simp_all add: related_def)

lemma collect_no_error: "collect env entries cur raw \<noteq> Inl ReadProcError"
proof (induction entries arbitrary: cur raw)
  case Nil
  show ?case by simp
next
  case (Cons entry entries)
  have m: "getMemoryMB env pid \<noteq> Inl ReadProcError" for pid
    by (simp add: getMemoryMB_def index_def Let_def split: option.split sum.split prod.split)
  have c: "getCPUTime env pid \<noteq> Inl ReadProcError" for pid
    by (simp add: getCPUTime_def index_def Let_def split: option.split sum.split)
  have s: "getStartTime env pid \<noteq> Inl ReadProcError" for pid
    by (simp add: getStartTime_def index_def Let_def split: option.split sum.split)
  show ?case
    using Cons.IH m c s
    by (auto simp: Let_def split: option.split sum.split)
qed

lemma GetProcesses_error:
  "GetProcesses env pm = Inl ReadProcError \<longleftrightarrow> ReadDir_proc env = None"
  using collect_no_error [of env _ Map.empty "[]"]
  by (auto simp: GetProcesses_def Let_def split: option.splits sum.splits)

lemma no_previous_pair_zero:
  assumes "GetProcesses env pm = Inr (procs, pm')" and "p \<in> set procs"
    and "prevCPUTimes pm (PID p) = None"
  shows "CPUPercent p = 0"
proof -
  from related_set [OF GetProcesses_related [OF assms(1)] assms(2)] obtain rp where
    rp: "rp \<in> set (candidates env)"
        "related (prevCPUTimes pm) (clkTck pm) (elapsedSeconds env pm) rp p"
    by blast
  have "CPUPercent (proc rp) = 0"
    using GetProcesses_collected [OF assms(1)] rp(1) by (simp add: collected_def)
  with rp(2) assms(3) show ?thesis
    by (simp add: related_def)
qed

lemma new_monitor_reports_zero:
  assumes "GetProcesses env (NewProcessMonitor env0) = Inr (procs, pm')" and "p \<in> set procs"
  shows "CPUPercent p = 0"
  using assms by (rule no_previous_pair_zero) (simp add: NewProcessMonitor_def)

lemma unseen_in_previous_poll_reports_zero:
  assumes "GetProcesses env1 pm = Inr (procs1, pm1)"
    and "GetProcesses env2 pm1 = Inr (procs2, pm2)"
    and "p \<in> set procs2" and "PID p \<notin> PID ` set procs1"
  shows "CPUPercent p = 0"
proof -
  have "PID p \<notin> dom (prevCPUTimes pm1)"
    using assms(4) dom_prevCPUTimes [OF assms(1)] by simp
  then have "prevCPUTimes pm1 (PID p) = None"
    by auto
  with assms(2,3) show ?thesis
    by (rule no_previous_pair_zero)
qed

subsection \<open>Evaluating the examples\<close>

lemmas stdlib_defs = Join3_def Itoa_def digits.simps LastIndex_def Fields_def isSpace_def
  index_def ParseUint_def isDigit_def digitVal_def trunc_def Atoi_def decimal_def
  TrimSpace_def Base_def Seconds_def

lemmas reader_defs = getStartTime_def getMemoryMB_def getCPUTime_def isClaude_def
  zeroCpuTime_def Let_def

lemmas example_defs = exampleTable_def procFiles_def statLine_def

lemmas monitor_defs = GetProcesses_def sort_Slice_def assign.simps nameCount_get_def
  getOrdinalSuffix_def

lemma collect_demo:
  "collect demoTable [\<lparr>entry_Name = ''1234'', entry_IsDir = True\<rparr>] Map.empty [] =
     Inr ([1234 \<mapsto> \<lparr>utime = 700, stime = 450\<rparr>],
          [\<lparr>proc = demoProcess\<lparr>CPUPercent := 0\<rparr>, cpuTime = \<lparr>utime = 700, stime = 450\<rparr>\<rparr>])"
  by (simp add: demoTable_def demoProcess_def example_defs stdlib_defs reader_defs)

lemma GetProcesses_demo:
  "GetProcesses demoTable demoMonitor = Inr ([demoProcess], demoMonitor')"
proof -
  have r: "ReadDir_proc demoTable = Some [\<lparr>entry_Name = ''1234'', entry_IsDir = True\<rparr>]"
    by (simp add: demoTable_def exampleTable_def)
  have n: "Now demoTable = 5000000000"
    by (simp add: demoTable_def exampleTable_def)
  show ?thesis
    unfolding GetProcesses_eval [OF r collect_demo]
    by (simp add: n demoMonitor_def demoMonitor'_def demoProcess_def elapsedSeconds_def
          Seconds_def sort_Slice_def assign.simps nameCount_get_def)
qed

lemma collect_regressed:
  "collect regressedTable [\<lparr>entry_Name = ''1234'', entry_IsDir = True\<rparr>] Map.empty [] =
     Inr ([1234 \<mapsto> \<lparr>utime = 500, stime = 400\<rparr>],
          [\<lparr>proc = demoProcess\<lparr>CPUPercent := 0\<rparr>, cpuTime = \<lparr>utime = 500, stime = 400\<rparr>\<rparr>])"
  by (simp add: regressedTable_def demoProcess_def example_defs stdlib_defs reader_defs)

lemma GetProcesses_regressed:
  "GetProcesses regressedTable demoMonitor =
     Inr ([demoProcess\<lparr>CPUPercent := 100\<rparr>], regressedMonitor')"
proof -
  have r: "ReadDir_proc regressedTable = Some [\<lparr>entry_Name = ''1234'', entry_IsDir = True\<rparr>]"
    by (simp add: regressedTable_def exampleTable_def)
  have n: "Now regressedTable = 5000000000"
    by (simp add: regressedTable_def exampleTable_def)
  show ?thesis
    unfolding GetProcesses_eval [OF r collect_regressed]
    by (simp add: n demoMonitor_def regressedMonitor'_def demoProcess_def elapsedSeconds_def
          Seconds_def sort_Slice_def assign.simps nameCount_get_def)
qed

lemma collect_proj:
  "collect projTable
     [\<lparr>entry_Name = ''101'', entry_IsDir = True\<rparr>, \<lparr>entry_Name = ''102'', entry_IsDir = True\<rparr>,
      \<lparr>entry_Name = ''103'', entry_IsDir = True\<rparr>] Map.empty [] =
     Inr ([101 \<mapsto> \<lparr>utime = 10, stime = 5\<rparr>, 102 \<mapsto> \<lparr>utime = 10, stime = 5\<rparr>,
           103 \<mapsto> \<lparr>utime = 10, stime = 5\<rparr>],
          [\<lparr>proc = exampleProcess 101 ''proj'' ''/b/proj'' 1699900020,
            cpuTime = \<lparr>utime = 10, stime = 5\<rparr>\<rparr>,
           \<lparr>proc = exampleProcess 102 ''proj'' ''/a/proj'' 1699900010,
            cpuTime = \<lparr>utime = 10, stime = 5\<rparr>\<rparr>,
           \<lparr>proc = exampleProcess 103 ''other'' ''/c/other'' 1699900030,
            cpuTime = \<lparr>utime = 10, stime = 5\<rparr>\<rparr>])"
  by (simp add: projTable_def exampleProcess_def example_defs stdlib_defs reader_defs)

lemma GetProcesses_proj:
  "GetProcesses projTable demoMonitor = Inr (projProcesses, projMonitor')"
proof -
  have r: "ReadDir_proc projTable =
      Some [\<lparr>entry_Name = ''101'', entry_IsDir = True\<rparr>, \<lparr>entry_Name = ''102'', entry_IsDir = True\<rparr>,
            \<lparr>entry_Name = ''103'', entry_IsDir = True\<rparr>]"
    by (simp add: projTable_def exampleTable_def)
  have n: "Now projTable = 5000000000"
    by (simp add: projTable_def exampleTable_def)
  show ?thesis
    unfolding GetProcesses_eval [OF r collect_proj]
    by (simp add: n demoMonitor_def projMonitor'_def projProcesses_def exampleProcess_def
          sort_Slice_def assign.simps nameCount_get_def getOrdinalSuffix_def Let_def)
qed

lemma GetProcesses_proj4:
  "map_sum id (\<lambda>r. map Name (fst r)) (GetProcesses projTable4 freshMonitor) =
     Inr [''proj'', ''proj (2nd)'', ''proj (3rd)'', ''proj (4th)'']"
  by (simp add: projTable4_def freshMonitor_def example_defs stdlib_defs reader_defs monitor_defs)

lemma collect_tie:
  "collect tieTable
     [\<lparr>entry_Name = ''10'', entry_IsDir = True\<rparr>, \<lparr>entry_Name = ''9'', entry_IsDir = True\<rparr>]
     Map.empty [] =
     Inr ([10 \<mapsto> \<lparr>utime = 10, stime = 5\<rparr>, 9 \<mapsto> \<lparr>utime = 10, stime = 5\<rparr>],
          [\<lparr>proc = exampleProcess 10 ''proj'' ''/a/proj'' 1699900050,
            cpuTime = \<lparr>utime = 10, stime = 5\<rparr>\<rparr>,
           \<lparr>proc = exampleProcess 9 ''proj'' ''/b/proj'' 1699900050,
            cpuTime = \<lparr>utime = 10, stime = 5\<rparr>\<rparr>])"
  by (simp add: tieTable_def exampleProcess_def example_defs stdlib_defs reader_defs)

lemma GetProcesses_tie:
  "GetProcesses tieTable freshMonitor = Inr (tieProcesses, tieMonitor')"
proof -
  have r: "ReadDir_proc tieTable =
      Some [\<lparr>entry_Name = ''10'', entry_IsDir = True\<rparr>, \<lparr>entry_Name = ''9'', entry_IsDir = True\<rparr>]"
    by (simp add: tieTable_def exampleTable_def)
  have n: "Now tieTable = 5000000000"
    by (simp add: tieTable_def exampleTable_def)
  show ?thesis
    unfolding GetProcesses_eval [OF r collect_tie]
    by (simp add: n freshMonitor_def tieMonitor'_def tieProcesses_def exampleProcess_def
          sort_Slice_def assign.simps nameCount_get_def getOrdinalSuffix_def Let_def)
qed

lemma collect_truncated:
  "collect truncatedTable [\<lparr>entry_Name = ''7'', entry_IsDir = True\<rparr>] Map.empty [] =
     Inl IndexOutOfRange"
  by (simp add: truncatedTable_def exampleTable_def stdlib_defs reader_defs)

lemma GetProcesses_truncated: "GetProcesses truncatedTable freshMonitor = Inl IndexOutOfRange"
proof -
  have r: "ReadDir_proc truncatedTable = Some [\<lparr>entry_Name = ''7'', entry_IsDir = True\<rparr>]"
    by (simp add: truncatedTable_def exampleTable_def)
  show ?thesis
    by (rule GetProcesses_collect_fails [OF r collect_truncated])
qed

lemma GetProcesses_unreadableRoot: "GetProcesses unreadableRoot pm = Inl ReadProcError"
  by (simp add: GetProcesses_def unreadableRoot_def)

subsection \<open>The percentage of a tracked process\<close>

text \<open>
  What the second pass stores for a process that has a previous counter pair:
  \<open>deltaTicks / clkTck / elapsed * 100\<close>, cut to 100, where \<open>elapsed\<close> is the time
  since the previous poll, at least 0.1 s, and \<open>deltaTicks\<close> is
  \<open>(curUser - prevUser) + (curStime - prevStime)\<close> computed on \<^verbatim>\<open>uint64\<close>. It is the
  difference of the totals only when the current total is not below the previous one. One
  process with 1000 ticks before and 1150 ticks now, polled after 5 s at 100 ticks per
  second, is reported with 30.
\<close>

lemma GetProcesses_cpu_percent:
  assumes "GetProcesses env pm = Inr (procs, pm')" and "p \<in> set procs"
    and "prevCPUTimes pm (PID p) = Some prev" and "0 < clkTck pm"
  shows "(\<exists>cur. prevCPUTimes pm' (PID p) = Some cur \<and>
           (let deltaTicks = real (unat ((utime cur - utime prev) + (stime cur - stime prev)));
                elapsed = max (Seconds (Now env - prevSample pm)) (1 / 10);
                percent = deltaTicks / clkTck pm / elapsed * 100
            in CPUPercent p = (if percent > 100 then 100 else percent) \<and>
               0 \<le> CPUPercent p \<and> CPUPercent p \<le> 100 \<and>
               (unat (utime prev) + unat (stime prev) \<le> unat (utime cur) + unat (stime cur) \<and>
                unat (utime cur) + unat (stime cur) < 2 ^ 64 \<longrightarrow>
                deltaTicks = real (unat (utime cur) + unat (stime cur))
                             - real (unat (utime prev) + unat (stime prev))))) \<and>
         GetProcesses demoTable demoMonitor = Inr ([demoProcess], demoMonitor') \<and>
         CPUPercent demoProcess = 30"
proof -
  from related_set [OF GetProcesses_related [OF assms(1)] assms(2)] obtain rp where
    rp: "rp \<in> set (candidates env)"
        "related (prevCPUTimes pm) (clkTck pm) (elapsedSeconds env pm) rp p"
    by blast
  let ?cur = "cpuTime rp"
  let ?d = "unat ((utime ?cur - utime prev) + (stime ?cur - stime prev))"
  let ?e = "max (Seconds (Now env - prevSample pm)) (1 / 10)"
  have pid: "PID (proc rp) = PID p"
    using rp(2) by (simp add: related_def)
  have cur: "prevCPUTimes pm' (PID p) = Some ?cur"
    using GetProcesses_collected [OF assms(1)] rp(1) pid by (auto simp: collected_def)
  have e: "elapsedSeconds env pm = ?e"
    by (rule elapsedSeconds_eq)
  have epos: "0 < ?e"
    using elapsedSeconds_pos [of env pm] e by simp
  have cpu: "CPUPercent p = percentOf prev ?cur (clkTck pm) ?e"
    using rp(2) assms(3) pid e by (simp add: related_def)
  have val: "CPUPercent p = (if real ?d / clkTck pm / ?e * 100 > 100 then 100
                             else real ?d / clkTck pm / ?e * 100)"
    unfolding cpu percentOf_eq [OF assms(4) epos] min_def by auto
  have rng: "0 \<le> CPUPercent p \<and> CPUPercent p \<le> 100"
    unfolding cpu by (rule percentOf_range [OF assms(4) epos])
  have mono: "real ?d = real (unat (utime ?cur) + unat (stime ?cur))
                        - real (unat (utime prev) + unat (stime prev))"
    if "unat (utime prev) + unat (stime prev) \<le> unat (utime ?cur) + unat (stime ?cur)"
      and "unat (utime ?cur) + unat (stime ?cur) < 2 ^ 64"
    unfolding total_delta [OF that] using that(1) by (simp only: of_nat_diff)
  have "CPUPercent demoProcess = 30"
    by (simp add: demoProcess_def)
  with cur val rng mono GetProcesses_demo show ?thesis
    unfolding Let_def by blast
qed


lemma GetProcesses_cpu_percent_example:
  "GetProcesses demoTable demoMonitor = Inr ([demoProcess], demoMonitor') \<and>
   demoProcess \<in> set [demoProcess] \<and>
   prevCPUTimes demoMonitor (PID demoProcess) = Some \<lparr>utime = 600, stime = 400\<rparr> \<and>
   0 < clkTck demoMonitor \<and>
   unat (600 :: 64 word) + unat (400 :: 64 word) \<le> unat (700 :: 64 word) + unat (450 :: 64 word) \<and>
   unat (700 :: 64 word) + unat (450 :: 64 word) < 2 ^ 64 \<and>
   prevCPUTimes demoMonitor' (PID demoProcess) = Some \<lparr>utime = 700, stime = 450\<rparr> \<and>
   CPUPercent demoProcess = 1150 / 100 / 5 * 100 - 1000 / 100 / 5 * 100 \<and>
   CPUPercent demoProcess = 30"
proof -
  have p: "demoProcess \<in> set [demoProcess]"
    by simp
  have prev: "prevCPUTimes demoMonitor (PID demoProcess) = Some \<lparr>utime = 600, stime = 400\<rparr>"
    by (simp add: demoMonitor_def demoProcess_def)
  have clk: "0 < clkTck demoMonitor"
    by (simp add: demoMonitor_def)
  have cur: "prevCPUTimes demoMonitor' (PID demoProcess) = Some \<lparr>utime = 700, stime = 450\<rparr>"
    by (simp add: demoMonitor'_def demoProcess_def)
  have "CPUPercent demoProcess = 1150 / 100 / 5 * 100 - 1000 / 100 / 5 * 100"
    by (simp add: demoProcess_def)
  with GetProcesses_cpu_percent [OF GetProcesses_demo p prev clk] p prev clk cur
  show ?thesis by simp
qed

section \<open>The claims\<close>

text \<open>
  \<^bold>\<open>C1.\<close> The claim computes the percentage from the difference of the counters and
  places it in [0, 100]. For the process of the example, whose counters went from
  600 + 400 = 1000 ticks to 500 + 400 = 900 ticks in 5 s at 100 ticks per second, that
  difference is \<open>-100\<close> and the formula gives \<open>-20\<close>, hence 0 within [0, 100]. The code
  subtracts on \<^verbatim>\<open>uint64\<close>: the difference wraps to \<open>2^64 - 100\<close> and the poll stores
  100.
\<close>

theorem regressed_counters_break_formula:
  "prevCPUTimes demoMonitor 1234 = Some \<lparr>utime = 600, stime = 400\<rparr> \<and>
   getCPUTime regressedTable 1234 = Inr \<lparr>utime = 500, stime = 400\<rparr> \<and>
   clkTck demoMonitor = 100 \<and>
   elapsedSeconds regressedTable demoMonitor = 5 \<and>
   ((500 - 600) + (400 - 400)) / clkTck demoMonitor
      / elapsedSeconds regressedTable demoMonitor * 100 = - 20 \<and>
   unat (((500 :: 64 word) - 600) + (400 - 400)) = 2 ^ 64 - 100 \<and>
   percentOf \<lparr>utime = 600, stime = 400\<rparr> \<lparr>utime = 500, stime = 400\<rparr>
     (clkTck demoMonitor) (elapsedSeconds regressedTable demoMonitor) = 100 \<and>
   GetProcesses regressedTable demoMonitor
     = Inr ([demoProcess\<lparr>CPUPercent := 100\<rparr>], regressedMonitor')"
proof -
  have prev: "prevCPUTimes demoMonitor 1234 = Some \<lparr>utime = 600, stime = 400\<rparr>"
    by (simp add: demoMonitor_def)
  have cur: "getCPUTime regressedTable 1234 = Inr \<lparr>utime = 500, stime = 400\<rparr>"
    by (simp add: regressedTable_def example_defs stdlib_defs reader_defs)
  have clk: "clkTck demoMonitor = 100"
    by (simp add: demoMonitor_def)
  have el: "elapsedSeconds regressedTable demoMonitor = 5"
    by (simp add: elapsedSeconds_def Seconds_def regressedTable_def exampleTable_def
          demoMonitor_def)
  have wrap: "unat (((500 :: 64 word) - 600) + (400 - 400)) = 2 ^ 64 - 100"
    by simp
  have pct: "percentOf \<lparr>utime = 600, stime = 400\<rparr> \<lparr>utime = 500, stime = 400\<rparr> 100 5 = 100"
    by (simp add: percentOf_def)
  from prev cur clk el wrap pct GetProcesses_regressed show ?thesis
    by simp
qed

text \<open>
  \<^bold>\<open>C2.\<close> The capacity is 360. From an empty buffer, inserting as many samples as the
  capacity and reading them out gives the samples in the order of insertion; one sample more
  evicts the first one and leaves the length at the capacity; and after any further
  insertions the read-out, which is the storage from the cursor to its end followed by the
  storage before the cursor, is the most recent samples in the order of insertion.
\<close>

theorem ring_buffer_round_trip:
  assumes "hb_inv hb0" and "count hb0 = 0" and "length ps = MaxSamples"
  shows "MaxSamples = 360 \<and>
         (\<exists>hb. add_all hb0 ps = Inr hb \<and> GetAll hb = Inr ps) \<and>
         (\<exists>hb. add_all hb0 (ps @ [q]) = Inr hb \<and> GetAll hb = Inr (tl ps @ [q]) \<and>
               length (tl ps @ [q]) = MaxSamples) \<and>
         (\<exists>hb. add_all hb0 (ps @ qs) = Inr hb \<and> count hb = MaxSamples \<and>
               GetAll hb = Inr (drop (head hb) (data hb) @ take (head hb) (data hb)) \<and>
               drop (head hb) (data hb) @ take (head hb) (data hb) = drop (length qs) (ps @ qs))"
proof -
  from add_all_fills [OF assms(1,2), of ps] obtain h1 where
    1: "add_all hb0 ps = Inr h1" "hb_inv h1" "chronological h1 = keep_last MaxSamples ps"
    by blast
  have a: "\<exists>hb. add_all hb0 ps = Inr hb \<and> GetAll hb = Inr ps"
    using 1 assms(3) by (auto simp: GetAll_chronological keep_last_def)
  from add_all_fills [OF assms(1,2), of "ps @ [q]"] obtain h2 where
    2: "add_all hb0 (ps @ [q]) = Inr h2" "hb_inv h2"
       "chronological h2 = keep_last MaxSamples (ps @ [q])"
    by blast
  have "keep_last MaxSamples (ps @ [q]) = tl ps @ [q]"
    using assms(3) MaxSamples_pos by (rule keep_last_snoc_full)
  moreover have "length (tl ps @ [q]) = MaxSamples"
    using assms(3) MaxSamples_pos by simp
  ultimately have b: "\<exists>hb. add_all hb0 (ps @ [q]) = Inr hb \<and> GetAll hb = Inr (tl ps @ [q]) \<and>
               length (tl ps @ [q]) = MaxSamples"
    using 2 by (auto simp: GetAll_chronological)
  from add_all_fills [OF assms(1,2), of "ps @ qs"] obtain h3 where
    3: "add_all hb0 (ps @ qs) = Inr h3" "hb_inv h3"
       "chronological h3 = keep_last MaxSamples (ps @ qs)"
       "count h3 = min (length (ps @ qs)) MaxSamples"
    by blast
  have full: "count h3 = MaxSamples"
    using 3(4) assms(3) by simp
  then have spl: "chronological h3 = drop (head h3) (data h3) @ take (head h3) (data h3)"
    by (simp add: chronological_def)
  have "keep_last MaxSamples (ps @ qs) = drop (length qs) (ps @ qs)"
    using assms(3) by (simp add: keep_last_def)
  with 3 full spl have c: "\<exists>hb. add_all hb0 (ps @ qs) = Inr hb \<and> count hb = MaxSamples \<and>
               GetAll hb = Inr (drop (head hb) (data hb) @ take (head hb) (data hb)) \<and>
               drop (head hb) (data hb) @ take (head hb) (data hb) = drop (length qs) (ps @ qs)"
    by (metis GetAll_chronological)
  from a b c MaxSamples_eq show ?thesis by blast
qed

theorem ring_buffer_round_trip_witness:
  "hb_inv NewHistoryBuffer \<and> count NewHistoryBuffer = 0 \<and>
   length (map samplePoint [0..<360]) = MaxSamples \<and>
   (\<exists>hb. add_all NewHistoryBuffer (map samplePoint [0..<360]) = Inr hb \<and>
         GetAll hb = Inr (map samplePoint [0..<360])) \<and>
   (\<exists>hb. add_all NewHistoryBuffer (map samplePoint [0..<360] @ [samplePoint 360]) = Inr hb \<and>
         GetAll hb = Inr (tl (map samplePoint [0..<360]) @ [samplePoint 360]))"
proof -
  have c: "count NewHistoryBuffer = 0"
    by (simp add: NewHistoryBuffer_def)
  have l: "length (map samplePoint [0..<360]) = MaxSamples"
    by (simp add: MaxSamples_eq)
  from ring_buffer_round_trip [OF hb_inv_New c l, of "samplePoint 360" "[]"] hb_inv_New c l
  show ?thesis by blast
qed

text \<open>
  \<^bold>\<open>C3.\<close> The counters of the example went back from 1000 to 900 ticks. The
  subtraction is unsigned, so the difference wraps to a number near \<open>2^64\<close> and the
  percentage is cut to 100; the test for a negative percentage never holds.
\<close>

theorem negative_delta_reports_100:
  "prevCPUTimes demoMonitor 1234 = Some \<lparr>utime = 600, stime = 400\<rparr> \<and>
   prevCPUTimes regressedMonitor' 1234 = Some \<lparr>utime = 500, stime = 400\<rparr> \<and>
   GetProcesses regressedTable demoMonitor
     = Inr ([demoProcess\<lparr>CPUPercent := 100\<rparr>], regressedMonitor')"
  using GetProcesses_regressed by (simp add: demoMonitor_def regressedMonitor'_def)

text \<open>
  \<^bold>\<open>C4.\<close> After a successful poll the keys of \<^verbatim>\<open>prevCPUTimes\<close> are exactly the
  process ids of the returned processes.
\<close>

theorem GetProcesses_state_replaced:
  assumes "GetProcesses env pm = Inr (procs, pm')"
  shows "dom (prevCPUTimes pm') = PID ` set procs"
  using assms by (rule dom_prevCPUTimes)

theorem GetProcesses_state_replaced_witness:
  "GetProcesses projTable demoMonitor = Inr (projProcesses, projMonitor') \<and>
   1234 \<in> dom (prevCPUTimes demoMonitor) \<and>
   dom (prevCPUTimes projMonitor') = {101, 102, 103} \<and>
   PID ` set projProcesses = {101, 102, 103}"
proof -
  have "PID ` set projProcesses = {101, 102, 103}"
    by (auto simp: projProcesses_def exampleProcess_def)
  moreover have "1234 \<in> dom (prevCPUTimes demoMonitor)"
    by (simp add: demoMonitor_def)
  ultimately show ?thesis
    using GetProcesses_state_replaced [OF GetProcesses_proj] GetProcesses_proj
    by simp
qed


text \<open>
  \<^bold>\<open>C5.\<close> The returned processes are in ascending order of start time and are the
  candidates of the first pass. The comparison looks at the start time only: processes with
  equal start times are not ordered by process id. With at most twelve candidates those with
  equal start times keep the order in which the first pass found them, which is the order of
  the directory listing.
\<close>

theorem GetProcesses_sorted_by_start_time:
  assumes "GetProcesses env pm = Inr (procs, pm')"
  shows "sorted (map StartTime procs) \<and>
         (\<exists>entries cur raw.
            ReadDir_proc env = Some entries \<and>
            collect env entries Map.empty [] = Inr (cur, raw) \<and>
            mset (map PID procs) = mset (map (\<lambda>r. PID (proc r)) raw) \<and>
            (length raw \<le> 12 \<longrightarrow>
             (\<forall>t. map PID (filter (\<lambda>p. StartTime p = t) procs)
                    = map (\<lambda>r. PID (proc r)) (filter (\<lambda>r. StartTime (proc r) = t) raw))))"
proof -
  from GetProcesses_success [OF assms] obtain entries cur raw where
    h: "ReadDir_proc env = Some entries" "collect env entries Map.empty [] = Inr (cur, raw)"
       "candidates env = sort_Slice (\<lambda>a b. StartTime (proc a) < StartTime (proc b)) raw"
    by blast
  note rel = GetProcesses_related [OF assms]
  have "sorted_wrt (\<lambda>a b. StartTime (proc a) \<le> StartTime (proc b)) (candidates env)"
    unfolding h(3) by (rule sorted_sort_Slice)
  then have "sorted (map (\<lambda>r. StartTime (proc r)) (candidates env))"
    by (simp add: sorted_map)
  then have a: "sorted (map StartTime procs)"
    by (simp add: related_StartTimes [OF rel])
  have "mset (map (\<lambda>r. PID (proc r)) (candidates env)) = mset (map (\<lambda>r. PID (proc r)) raw)"
    unfolding h(3) by (simp add: mset_sort_Slice)
  then have b: "mset (map PID procs) = mset (map (\<lambda>r. PID (proc r)) raw)"
    by (simp add: related_PIDs [OF rel])
  have c: "map PID (filter (\<lambda>p. StartTime p = t) procs)
             = map (\<lambda>r. PID (proc r)) (filter (\<lambda>r. StartTime (proc r) = t) raw)" for t
    unfolding related_filter_StartTime [OF rel] h(3)
    by (simp add: sort_Slice_stable [of "\<lambda>r. StartTime (proc r)"])
  from a b c h(1,2) show ?thesis by blast
qed

theorem GetProcesses_sorted_by_start_time_witness:
  "GetProcesses projTable demoMonitor = Inr (projProcesses, projMonitor') \<and>
   map StartTime projProcesses = [1699900010, 1699900020, 1699900030] \<and>
   map PID projProcesses = [102, 101, 103] \<and>
   length projProcesses \<le> 12 \<and>
   sorted (map StartTime projProcesses)"
  using GetProcesses_sorted_by_start_time [OF GetProcesses_proj] GetProcesses_proj
  by (simp add: projProcesses_def exampleProcess_def)

theorem tie_not_broken_by_pid_counterexample:
  "GetProcesses tieTable freshMonitor = Inr (tieProcesses, tieMonitor') \<and>
   map StartTime tieProcesses = [1699900050, 1699900050] \<and>
   map PID tieProcesses = [10, 9]"
  using GetProcesses_tie by (simp add: tieProcesses_def exampleProcess_def)

text \<open>
  \<^bold>\<open>C6.\<close> The \<open>i\<close>-th returned process is named after the \<open>i\<close>-th candidate of the
  sorted list: when that candidate is the \<open>N\<close>-th one with its base name, the name is the
  base name for \<open>N = 1\<close>, and the base name followed by \<open>(2nd)\<close>, \<open>(3rd)\<close> or
  \<open>(Nth)\<close> for \<open>N = 2\<close>, \<open>N = 3\<close> and \<open>N \<ge> 4\<close>. Processes in \<^verbatim>\<open>/a/proj\<close>,
  \<^verbatim>\<open>/b/proj\<close> and \<^verbatim>\<open>/c/other\<close>, in this order of start time, are named \<open>proj\<close>,
  \<open>proj (2nd)\<close> and \<open>other\<close>; the fourth of four processes in directories called
  \<open>proj\<close> is named \<open>proj (4th)\<close>.
\<close>

theorem GetProcesses_names:
  assumes "GetProcesses env pm = Inr (procs, pm')" and "i < length procs"
  shows "length (candidates env) = length procs \<and>
         (let baseName = Name (proc (candidates env ! i));
              N = count_list (map (\<lambda>r. Name (proc r)) (take (Suc i) (candidates env))) baseName
          in 1 \<le> N \<and>
             Name (procs ! i) =
               (if N = 1 then baseName
                else if N = 2 then baseName @ '' (2nd)''
                else if N = 3 then baseName @ '' (3rd)''
                else baseName @ '' ('' @ Itoa (int N) @ ''th)'')) \<and>
         GetProcesses projTable demoMonitor = Inr (projProcesses, projMonitor') \<and>
         map WorkingDir projProcesses = [''/a/proj'', ''/b/proj'', ''/c/other''] \<and>
         map Name projProcesses = [''proj'', ''proj (2nd)'', ''other''] \<and>
         map_sum id (\<lambda>r. map Name (fst r)) (GetProcesses projTable4 freshMonitor)
           = Inr [''proj'', ''proj (2nd)'', ''proj (3rd)'', ''proj (4th)'']"
proof -
  note rel = GetProcesses_related [OF assms(1)]
  have len: "length (candidates env) = length procs"
    using rel by (rule list_all2_lengthD)
  with assms(2) have i: "i < length (candidates env)"
    by simp
  let ?b = "Name (proc (candidates env ! i))"
  let ?N = "count_list (map (\<lambda>r. Name (proc r)) (take (Suc i) (candidates env))) ?b"
  have procs: "procs = assign (prevCPUTimes pm) (clkTck pm) (elapsedSeconds env pm)
                         (candidates env) Map.empty []"
    using GetProcesses_success [OF assms(1)] by blast
  have "?b \<in> set (map (\<lambda>r. Name (proc r)) (take (Suc i) (candidates env)))"
    using i by (simp add: take_Suc_conv_app_nth)
  then have pos: "1 \<le> ?N"
    by (metis count_list_0_iff not_less_eq_eq One_nat_def le_0_eq)
  have "Name (procs ! i) = displayName ?b (nameCount_get Map.empty ?b + int ?N)"
    unfolding procs by (rule assign_names [OF i])
  then have name: "Name (procs ! i) = displayName ?b (int ?N)"
    by (simp add: nameCount_get_def)
  have "displayName ?b (int ?N) =
          (if ?N = 1 then ?b
           else if ?N = 2 then ?b @ '' (2nd)''
           else if ?N = 3 then ?b @ '' (3rd)''
           else ?b @ '' ('' @ Itoa (int ?N) @ ''th)'')"
    using pos by (auto simp: displayName_def getOrdinalSuffix_def)
  with name have n: "Name (procs ! i) =
          (if ?N = 1 then ?b
           else if ?N = 2 then ?b @ '' (2nd)''
           else if ?N = 3 then ?b @ '' (3rd)''
           else ?b @ '' ('' @ Itoa (int ?N) @ ''th)'')"
    by simp
  have ex: "map WorkingDir projProcesses = [''/a/proj'', ''/b/proj'', ''/c/other'']"
    "map Name projProcesses = [''proj'', ''proj (2nd)'', ''other'']"
    by (simp_all add: projProcesses_def exampleProcess_def)
  from len pos n ex GetProcesses_proj GetProcesses_proj4 show ?thesis
    unfolding Let_def by blast
qed

theorem GetProcesses_names_witness:
  "GetProcesses projTable demoMonitor = Inr (projProcesses, projMonitor') \<and>
   1 < length projProcesses \<and>
   length (candidates projTable) = 3 \<and>
   Name (projProcesses ! 1) = ''proj (2nd)''"
proof -
  have l: "1 < length projProcesses"
    by (simp add: projProcesses_def)
  have "Name (projProcesses ! 1) = ''proj (2nd)''"
    by (simp add: projProcesses_def exampleProcess_def)
  with GetProcesses_names [OF GetProcesses_proj l] GetProcesses_proj l show ?thesis
    by (simp add: projProcesses_def)
qed

text \<open>
  \<^bold>\<open>C7.\<close> A process for which the monitor holds no previous counter pair is reported
  with a percentage of 0.
\<close>

theorem first_observation_reports_zero:
  assumes "GetProcesses env pm = Inr (procs, pm')" and "p \<in> set procs"
    and "prevCPUTimes pm (PID p) = None"
  shows "CPUPercent p = 0"
  using assms by (rule no_previous_pair_zero)

theorem first_observation_reports_zero_witness:
  "GetProcesses projTable demoMonitor = Inr (projProcesses, projMonitor') \<and>
   exampleProcess 101 ''proj (2nd)'' ''/b/proj'' 1699900020 \<in> set projProcesses \<and>
   prevCPUTimes demoMonitor (PID (exampleProcess 101 ''proj (2nd)'' ''/b/proj'' 1699900020)) = None \<and>
   CPUPercent (exampleProcess 101 ''proj (2nd)'' ''/b/proj'' 1699900020) = 0"
proof -
  have m: "exampleProcess 101 ''proj (2nd)'' ''/b/proj'' 1699900020 \<in> set projProcesses"
    by (simp add: projProcesses_def)
  have n: "prevCPUTimes demoMonitor
             (PID (exampleProcess 101 ''proj (2nd)'' ''/b/proj'' 1699900020)) = None"
    by (simp add: demoMonitor_def exampleProcess_def)
  from first_observation_reports_zero [OF GetProcesses_proj m n] GetProcesses_proj m n
  show ?thesis by simp
qed



text \<open>
  \<^bold>\<open>C9.\<close> The \<^verbatim>\<open>stat\<close> record of the example has exactly twelve fields behind the
  command name. It passes the guard \<^verbatim>\<open>len(fields) < 12\<close>, and reading
  \<^verbatim>\<open>fields[12]\<close> panics, although the process table root was listed.
\<close>

theorem truncated_stat_panics:
  "ReadDir_proc truncatedTable = Some [\<lparr>entry_Name = ''7'', entry_IsDir = True\<rparr>] \<and>
   length (Fields ''S 1 2 3 4 5 6 7 8 9 10 11'') = 12 \<and>
   getCPUTime truncatedTable 7 = Inl IndexOutOfRange \<and>
   GetProcesses truncatedTable freshMonitor = Inl IndexOutOfRange"
proof -
  have "ReadDir_proc truncatedTable = Some [\<lparr>entry_Name = ''7'', entry_IsDir = True\<rparr>]"
    by (simp add: truncatedTable_def exampleTable_def)
  moreover have "length (Fields ''S 1 2 3 4 5 6 7 8 9 10 11'') = 12"
    by (simp add: Fields_def isSpace_def)
  moreover have "getCPUTime truncatedTable 7 = Inl IndexOutOfRange"
    by (simp add: truncatedTable_def exampleTable_def stdlib_defs reader_defs)
  ultimately show ?thesis
    using GetProcesses_truncated by simp
qed

text \<open>
  \<^bold>\<open>C10.\<close> When \<^verbatim>\<open>GetProcesses\<close> returns its error, \<^verbatim>\<open>RecordHistory\<close> returns
  with the handler as it was: nothing is appended, and the storage, the occupancy and the
  cursor of the history buffer are unchanged.
\<close>

theorem RecordHistory_failed_poll:
  assumes "GetProcesses env (processMonitor h) = Inl ReadProcError"
  shows "RecordHistory env h = Inr h \<and>
         (\<exists>h'. RecordHistory env h = Inr h' \<and> data (history h') = data (history h) \<and>
               count (history h') = count (history h) \<and> head (history h') = head (history h) \<and>
               GetAll (history h') = GetAll (history h))"
  using assms by (simp add: RecordHistory_def)

theorem RecordHistory_failed_poll_witness:
  "GetProcesses unreadableRoot (processMonitor demoHandler) = Inl ReadProcError \<and>
   RecordHistory unreadableRoot demoHandler = Inr demoHandler"
  using RecordHistory_failed_poll [OF GetProcesses_unreadableRoot, of demoHandler]
    GetProcesses_unreadableRoot [of "processMonitor demoHandler"]
  by simp

end
